theory Spec2Isabelle
  imports Main "HOL-Library.AList" "HOL-Library.Countable"
begin

section \<open>Strings\<close>

text \<open>
  A Python \<open>str\<close> is modelled by a HOL \<open>string\<close>. The only character outside ASCII that
  the program itself writes is the prime mark U+2019 of the substitution tags and of the
  minute pattern; it stands here as the three bytes of its UTF-8 encoding. Searching for
  an ASCII text, and the character classes used by the program's patterns, give the same
  answer on the encoded text as on the code points.
\<close>

definition prime_mark :: string where
  "prime_mark = [CHR 0xE2, CHR 0x80, CHR 0x99]"

text \<open>\<open>str.lower\<close> on the ASCII letters; every other character is kept.\<close>

definition lower_char :: "char \<Rightarrow> char" where
  "lower_char c =
     (case map_of (zip ''ABCDEFGHIJKLMNOPQRSTUVWXYZ'' ''abcdefghijklmnopqrstuvwxyz'') c of
        Some d \<Rightarrow> d
      | None \<Rightarrow> c)"

definition lower :: "string \<Rightarrow> string" where
  "lower s = map lower_char s"

text \<open>\<open>s.startswith(p)\<close> and the substring test \<open>sub in s\<close>.\<close>

fun startswith :: "string \<Rightarrow> string \<Rightarrow> bool" where
  "startswith s [] = True"
| "startswith [] (p # ps) = False"
| "startswith (c # cs) (p # ps) = (c = p \<and> startswith cs ps)"

fun py_in :: "string \<Rightarrow> string \<Rightarrow> bool" where
  "py_in sub [] = (sub = [])"
| "py_in sub (c # cs) = (startswith (c # cs) sub \<or> py_in sub cs)"

text \<open>The ASCII digits, by their codes.\<close>

definition is_digit :: "char \<Rightarrow> bool" where
  "is_digit c = (48 \<le> (of_char c :: nat) \<and> (of_char c :: nat) \<le> 57)"

section \<open>Player records\<close>

text \<open>
  A statistic is an \<open>int\<close>, or a \<open>float\<close> for the shot-creating actions. Python's floats
  are kept abstract: the type \<open>'f\<close> with the operations the program applies to them.
  \<open>f_parse\<close> is \<open>float(text)\<close> (\<open>None\<close> when it raises), \<open>f_round\<close> is
  \<open>int(round(x))\<close> (\<open>None\<close> when it raises, as it does on a NaN or an infinity).
\<close>

datatype 'f pynum = PyInt int | PyFloat 'f

record 'f float_ops =
  f_of_int :: "int \<Rightarrow> 'f"
  f_add :: "'f \<Rightarrow> 'f \<Rightarrow> 'f"
  f_parse :: "string \<Rightarrow> 'f option"
  f_round :: "'f \<Rightarrow> int option"

text \<open>
  The dictionary of one player, as \<open>init_player_dict\<close> lays it out. Its statistic keys
  are all created at once and never removed, so that part is a function of the column.
\<close>

record 'f pdict =
  player_id :: string
  player :: string
  position :: string
  minutes :: int
  starter :: string
  sub_in_out :: string
  stat :: "string \<Rightarrow> 'f pynum"

section \<open>Starter classifier\<close>

definition assign_starter_flag :: "'f pdict \<Rightarrow> string" where
  "assign_starter_flag pd =
     (let mins = minutes pd; sub_info = lower (sub_in_out pd) in
      if mins < 90 \<and> py_in ''out'' sub_info then ''yes''
      else if mins < 90 \<and> py_in ''in'' sub_info \<and> \<not> py_in ''out'' sub_info then ''no''
      else if mins \<ge> 90 \<and> sub_info = ''n/a'' then ''yes''
      else ''no'')"

text \<open>The three shapes of a substitution tag, and the text the program stores for each.\<close>

datatype sub_tag = NoTag | TagIn string | TagOut string

fun render_tag :: "sub_tag \<Rightarrow> string" where
  "render_tag NoTag = ''n/a''"
| "render_tag (TagIn m) = ''In | '' @ m @ prime_mark"
| "render_tag (TagOut m) = ''Out | '' @ m @ prime_mark"

definition has_out :: "string \<Rightarrow> bool" where
  "has_out tag = py_in ''out'' (lower tag)"

definition has_in :: "string \<Rightarrow> bool" where
  "has_in tag = py_in ''in'' (lower tag)"

definition tag_absent :: "string \<Rightarrow> bool" where
  "tag_absent tag = (lower tag = ''n/a'')"

section \<open>The patterns the program searches for\<close>

text \<open>
  \<open>str.strip()\<close>: the ASCII white space (tab to carriage return, the four separators
  28 to 31, and the space) is removed at both ends.
\<close>

definition is_space :: "char \<Rightarrow> bool" where
  "is_space c =
     ((9 \<le> (of_char c :: nat) \<and> (of_char c :: nat) \<le> 13) \<or>
      (28 \<le> (of_char c :: nat) \<and> (of_char c :: nat) \<le> 32))"

definition strip :: "string \<Rightarrow> string" where
  "strip s = rev (dropWhile is_space (rev (dropWhile is_space s)))"

text \<open>\<open>s.split(sep)\<close> for a separator of one character: never an empty list.\<close>

fun split :: "char \<Rightarrow> string \<Rightarrow> string list" where
  "split sep [] = [[]]"
| "split sep (c # cs) =
     (if c = sep then [] # split sep cs
      else (case split sep cs of
              [] \<Rightarrow> [[c]]
            | w # ws \<Rightarrow> (c # w) # ws))"

text \<open>
  The group of a pattern \<open>([^d]+)d\<close> read at the head of a text: the longest run of
  characters other than \<open>d\<close>, which must not be empty and must be followed by \<open>d\<close>.
  A shorter run cannot match, since it would be followed by a character of the run.
\<close>

definition group_until :: "char \<Rightarrow> string \<Rightarrow> string option" where
  "group_until d s =
     (let g = takeWhile (\<lambda>c. c \<noteq> d) s in
      if g \<noteq> [] \<and> startswith (drop (length g) s) [d] then Some g else None)"

text \<open>
  \<open>re.search\<close> for a literal text followed by such a group, as in
  \<open>/en/squads/([^/]+)/\<close>: the leftmost place where the whole pattern matches.
\<close>

fun re_search_group :: "string \<Rightarrow> char \<Rightarrow> string \<Rightarrow> string option" where
  "re_search_group lit d [] = None"
| "re_search_group lit d (c # cs) =
     (if startswith (c # cs) lit
      then (case group_until d (drop (length lit) (c # cs)) of
              Some g \<Rightarrow> Some g
            | None \<Rightarrow> re_search_group lit d cs)
      else re_search_group lit d cs)"

text \<open>The same pattern anchored with \<open>^\<close> at the start, as in \<open>^stats_([^_]+)_\<close>.\<close>

definition re_match_group :: "string \<Rightarrow> char \<Rightarrow> string \<Rightarrow> string option" where
  "re_match_group lit d s =
     (if startswith s lit then group_until d (drop (length lit) s) else None)"

text \<open>
  The minute pattern: a run of digits followed by the prime mark. Only the ASCII digits
  are taken for \<open>\d\<close>.
\<close>

definition minute_here :: "string \<Rightarrow> string option" where
  "minute_here s =
     (let g = takeWhile is_digit s in
      if g \<noteq> [] \<and> startswith (drop (length g) s) prime_mark then Some g else None)"

fun search_minute :: "string \<Rightarrow> string option" where
  "search_minute [] = None"
| "search_minute (c # cs) =
     (case minute_here (c # cs) of
        Some g \<Rightarrow> Some g
      | None \<Rightarrow> search_minute cs)"

section \<open>The halting pattern of a report address\<close>

text \<open>
  The pattern \<open>/[0-9A-Za-z]{8}/[0-9A-Za-z]{8}/\<close> has a fixed length: it is a list of
  character classes, matched one character each.
\<close>

definition is_alnum :: "char \<Rightarrow> bool" where
  "is_alnum c =
     ((48 \<le> (of_char c :: nat) \<and> (of_char c :: nat) \<le> 57) \<or>
      (65 \<le> (of_char c :: nat) \<and> (of_char c :: nat) \<le> 90) \<or>
      (97 \<le> (of_char c :: nat) \<and> (of_char c :: nat) \<le> 122))"

datatype char_class = Lit char | AlNum

fun in_class :: "char_class \<Rightarrow> char \<Rightarrow> bool" where
  "in_class (Lit d) c = (c = d)"
| "in_class AlNum c = is_alnum c"

fun match_here :: "char_class list \<Rightarrow> string \<Rightarrow> bool" where
  "match_here [] s = True"
| "match_here (k # ks) [] = False"
| "match_here (k # ks) (c # cs) = (in_class k c \<and> match_here ks cs)"

fun re_search :: "char_class list \<Rightarrow> string \<Rightarrow> bool" where
  "re_search pat [] = match_here pat []"
| "re_search pat (c # cs) = (match_here pat (c # cs) \<or> re_search pat cs)"

definition BAD_URL_REGEX :: "char_class list" where
  "BAD_URL_REGEX =
     Lit (CHR ''/'') # replicate 8 AlNum @ Lit (CHR ''/'') # replicate 8 AlNum @ [Lit (CHR ''/'')]"

definition is_bad_url :: "string \<Rightarrow> bool" where
  "is_bad_url url_text =
     (if url_text = [] then False else re_search BAD_URL_REGEX (strip url_text))"

text \<open>
  The wording of the specification, for comparison: the address, cut at its slashes, has
  two neighbouring segments of eight alphanumeric characters each.
\<close>

definition seg8 :: "string \<Rightarrow> bool" where
  "seg8 w = (length w = 8 \<and> list_all is_alnum w)"

fun two_consecutive_seg8 :: "string list \<Rightarrow> bool" where
  "two_consecutive_seg8 (a # b # ws) = ((seg8 a \<and> seg8 b) \<or> two_consecutive_seg8 (b # ws))"
| "two_consecutive_seg8 ws = False"

definition halting_by_segments :: "string \<Rightarrow> bool" where
  "halting_by_segments url = two_consecutive_seg8 (split (CHR ''/'') url)"

text \<open>\<open>sep.join(ws)\<close>, the inverse of \<open>split\<close>.\<close>

fun join :: "char \<Rightarrow> string list \<Rightarrow> string" where
  "join sep [] = []"
| "join sep [w] = w"
| "join sep (w # v # ws) = w @ sep # join sep (v # ws)"

section \<open>The match report as the program queries it\<close>

text \<open>
  The parsed document is taken as the answers to the queries the program puts to it; every
  text is the one \<open>get_text(strip=True)\<close> returns.
\<close>

text \<open>
  \<open>div.scorebox\<close>: its anchors whose \<open>href\<close> begins with \<open>/en/squads/\<close>, each as
  (text, href), and the texts of its \<open>div.score\<close> elements.
\<close>

record scorebox =
  squad_links :: "(string \<times> string) list"
  score_divs :: "string list"

text \<open>
  One body row of a statistics table: the anchor to the player inside
  \<open>th[data-stat=player]\<close> as (href, text), if there is one, and the \<open>td\<close> cells as
  (data-stat, text) in document order.
\<close>

record stat_row =
  player_link :: "(string \<times> string) option"
  cells :: "(string \<times> string) list"

record stats_table =
  tbl_id :: string
  tbody :: "stat_row list option"

text \<open>
  The block next to the icon of an event: the \<open>href\<close> of its first anchor, and of the
  anchor inside its \<open>small\<close> element (an anchor without the attribute has the empty text).
\<close>

record info_div =
  player_in_tag :: "string option"
  player_out_tag :: "string option"

text \<open>
  One \<open>div\<close> of the event list: the classes of its icon (if it has an icon), its own
  classes, the texts of its direct child \<open>div\<close>s, and the block that follows the icon.
\<close>

record event_div =
  icon_classes :: "string list option"
  event_class :: "string list"
  minute_divs :: "string list"
  info :: "info_div option"

text \<open>
  A cell of the shot log: its text, its \<open>data-append-csv\<close> attribute and the \<open>href\<close>
  of its first anchor that has one.
\<close>

record shot_cell =
  cell_text :: string
  append_csv :: "string option"
  cell_href :: "string option"

record shot_row =
  row_class :: "string list"
  shot_cells :: "(string \<times> shot_cell) list"

text \<open>
  The document. \<open>possession_tds\<close> are the \<open>td\<close> cells of the row after the row of the
  Possession header in \<open>div#team_stats\<close>, each with the text of its \<open>strong\<close> element if
  it has one; \<open>None\<close> when the block, the header, its row or the next row is missing.
  A line-up block is given by the text of its \<open>th[colspan=2]\<close> header, if it has one.
  \<open>stats_tables\<close> are the tables whose id matches the pattern of the six categories.
  \<open>shots_table\<close> is \<open>table#shots_all\<close>, given by the rows of its body if it has a body.
\<close>

record doc =
  find_scorebox :: "scorebox option"
  possession_tds :: "string option list option"
  home_lineup_div :: "string option option"
  away_lineup_div :: "string option option"
  stats_tables :: "stats_table list"
  events_wrap :: "event_div list option"
  shots_table :: "shot_row list option option"

section \<open>Team identity resolver\<close>

definition sentinel :: string where
  "sentinel = ''0000000000''"

definition extract_team_id :: "string \<Rightarrow> string" where
  "extract_team_id hval =
     (case re_search_group ''/en/squads/'' (CHR ''/'') hval of
        Some g \<Rightarrow> g
      | None \<Rightarrow> sentinel)"

text \<open>The dictionary from team name to code, in the order of first insertion.\<close>

definition found_team_map_of :: "(string \<times> string) list \<Rightarrow> (string \<times> string) list" where
  "found_team_map_of a_tags =
     foldl (\<lambda>m (t_name, href). AList.update t_name (extract_team_id href) m) [] a_tags"

definition safe_lookup :: "(string \<times> string) list \<Rightarrow> string \<Rightarrow> string" where
  "safe_lookup found_team_map name0 =
     (case map_of found_team_map name0 of
        Some v \<Rightarrow> v
      | None \<Rightarrow>
          (case find (\<lambda>(k, v). py_in (lower name0) (lower k)) found_team_map of
             Some (k, v) \<Rightarrow> v
           | None \<Rightarrow> sentinel))"

text \<open>The codes forced for three known names, one side at a time.\<close>

definition force_known_id :: "string \<Rightarrow> string \<Rightarrow> string" where
  "force_known_id team tid =
     (let t1 = (if team = ''Wolves'' then ''8cec06e1'' else tid);
          t2 = (if team = ''Manchester Utd'' then ''19538871'' else t1);
          t3 = (if team = ''Newcastle Utd'' then ''b2b47a98'' else t2)
      in t3)"

datatype warning =
    FallbackNotPossibleAway "string set"
  | FallbackNotPossibleHome "string set"
  | BothTeamsFailed
  | MoreThanTwoIds "string set"

text \<open>
  The complementary fallback and the warnings, from the two codes found so far and the
  dictionary of the codes in the document.
\<close>

definition fallback ::
  "string \<Rightarrow> string \<Rightarrow> (string \<times> string) list \<Rightarrow> string \<times> string \<times> warning list" where
  "fallback home_team_id away_team_id found_team_map =
     (let team_ids_found = set (map snd found_team_map);
          (h, a, w1) =
            (if home_team_id \<noteq> sentinel \<and> away_team_id = sentinel then
               (let leftover = team_ids_found - {home_team_id} in
                if card leftover = 1 then (home_team_id, the_elem leftover, [])
                else (home_team_id, away_team_id, [FallbackNotPossibleAway leftover]))
             else if away_team_id \<noteq> sentinel \<and> home_team_id = sentinel then
               (let leftover = team_ids_found - {away_team_id} in
                if card leftover = 1 then (the_elem leftover, away_team_id, [])
                else (home_team_id, away_team_id, [FallbackNotPossibleHome leftover]))
             else (home_team_id, away_team_id, []));
          w2 = (if h = sentinel \<and> a = sentinel then [BothTeamsFailed] else []);
          w3 = (if card team_ids_found > 2 then [MoreThanTwoIds team_ids_found] else [])
      in (h, a, w1 @ w2 @ w3))"

definition resolve_team_ids ::
  "string \<Rightarrow> string \<Rightarrow> scorebox \<Rightarrow> string \<times> string \<times> warning list" where
  "resolve_team_ids home_team away_team sb =
     (let found_team_map = found_team_map_of (squad_links sb);
          home_team_id = force_known_id home_team (safe_lookup found_team_map home_team);
          away_team_id = force_known_id away_team (safe_lookup found_team_map away_team)
      in fallback home_team_id away_team_id found_team_map)"

section \<open>Match metadata extractor\<close>

definition final_score_of :: "scorebox \<Rightarrow> string" where
  "final_score_of sb =
     (let sc_divs = score_divs sb;
          (home_score, away_score) =
            (if length sc_divs = 2 then (sc_divs ! 0, sc_divs ! 1) else (''0'', ''0''))
      in home_score @ '' : '' @ away_score)"

definition possession_of :: "doc \<Rightarrow> string \<times> string" where
  "possession_of d =
     (case possession_tds d of
        None \<Rightarrow> (''0%'', ''0%'')
      | Some tds \<Rightarrow>
          if length tds = 2 then
            ((case tds ! 0 of Some s_home \<Rightarrow> s_home | None \<Rightarrow> ''0%''),
             (case tds ! 1 of Some s_away \<Rightarrow> s_away | None \<Rightarrow> ''0%''))
          else (''0%'', ''0%''))"

definition formation_token :: "string \<Rightarrow> string" where
  "formation_token text =
     (case re_search_group ''('' (CHR '')'') text of
        Some g \<Rightarrow> g
      | None \<Rightarrow> ''Unknown'')"

definition formations_of :: "doc \<Rightarrow> string \<times> string" where
  "formations_of d =
     (case (home_lineup_div d, away_lineup_div d) of
        (Some home_formation_th, Some away_formation_th) \<Rightarrow>
          (case (home_formation_th, away_formation_th) of
             (Some home_formation_text, Some away_formation_text) \<Rightarrow>
               (formation_token home_formation_text, formation_token away_formation_text)
           | _ \<Rightarrow> (''Unknown'', ''Unknown''))
      | _ \<Rightarrow> (''Unknown'', ''Unknown''))"

section \<open>Player stat aggregator\<close>

text \<open>\<open>int(text)\<close> on ASCII text: white space around, a sign, digits with single underscores between.\<close>

definition valid_digits :: "string \<Rightarrow> bool" where
  "valid_digits s =
     (s \<noteq> [] \<and> list_all (\<lambda>c. is_digit c \<or> c = CHR ''_'') s \<and>
      hd s \<noteq> CHR ''_'' \<and> last s \<noteq> CHR ''_'' \<and> \<not> py_in ''__'' s)"

definition digits_value :: "string \<Rightarrow> int" where
  "digits_value ds = foldl (\<lambda>a c. 10 * a + (int (of_char c) - 48)) 0 ds"

definition py_int :: "string \<Rightarrow> int option" where
  "py_int text =
     (let t = strip text;
          (neg, body) =
            (case t of
               [] \<Rightarrow> (False, [])
             | c # r \<Rightarrow>
                 if c = CHR ''-'' then (True, r)
                 else if c = CHR ''+'' then (False, r)
                 else (False, t))
      in if valid_digits body
         then Some ((if neg then - 1 else 1) * digits_value (filter (\<lambda>c. c \<noteq> CHR ''_'') body))
         else None)"

text \<open>The source statistic of each column, in the order of the dictionary.\<close>

definition player_stat_map :: "(string \<times> string) list" where
  "player_stat_map =
     [(''shots'', ''shots''),
      (''shots_on_target'', ''shots_on_target''),
      (''fouls'', ''fouls''),
      (''corner_kicks'', ''corner_kicks''),
      (''crosses'', ''crosses''),
      (''touches'', ''touches''),
      (''tackles'', ''tackles''),
      (''interceptions'', ''interceptions''),
      (''passes'', ''passes''),
      (''assisted_shots'', ''shots_assisted''),
      (''take_ons'', ''take_ons''),
      (''progressive_carries'', ''progressive_carries''),
      (''clearances'', ''clearances''),
      (''tackles_def_3rd'', ''tackles_def_3rd''),
      (''tackles_mid_3rd'', ''tackles_mid_3rd''),
      (''tackles_att_3rd'', ''tackles_att_3rd''),
      (''blocked_shots'', ''blocked_shots''),
      (''blocked_passes'', ''blocked_passes''),
      (''challenges'', ''challenges''),
      (''carries_into_final_third'', ''carries_into_final_third''),
      (''progressive_passes_received'', ''progressive_passes_received''),
      (''passes_into_final_third'', ''passes_into_final_third''),
      (''passes_into_penalty_area'', ''passes_into_penalty_area''),
      (''touches_def_3rd'', ''touches_def_3rd''),
      (''touches_mid_3rd'', ''touches_mid_3rd''),
      (''touches_att_3rd'', ''touches_att_3rd''),
      (''touches_att_pen_area'', ''touches_att_pen_area''),
      (''sca'', ''sca'')]"

definition stat_cols :: "string list" where
  "stat_cols = map snd player_stat_map"

type_synonym 'f players = "(string \<times> 'f pdict) list"

definition init_player_dict :: "string \<Rightarrow> string \<Rightarrow> 'f pdict" where
  "init_player_dict pid pname =
     \<lparr>player_id = pid, player = pname, position = ''N/A'', minutes = 0,
      starter = ''no'', sub_in_out = ''n/a'', stat = (\<lambda>dbcol. PyInt 0)\<rparr>"

text \<open>One statistic of a row: kept as it is when the row has no cell for it, zero when the text does not parse.\<close>

definition populate_stat ::
  "'f float_ops \<Rightarrow> stat_row \<Rightarrow> string \<times> string \<Rightarrow> 'f pdict \<Rightarrow> 'f pdict" where
  "populate_stat fo row = (\<lambda>(fbref_stat, dbcol) pd.
     (case map_of (cells row) fbref_stat of
        None \<Rightarrow> pd
      | Some val \<Rightarrow>
          if fbref_stat = ''sca'' then
            pd\<lparr>stat := (stat pd)(dbcol := PyFloat (case f_parse fo val of
                                                    Some x \<Rightarrow> x
                                                  | None \<Rightarrow> f_of_int fo 0))\<rparr>
          else
            pd\<lparr>stat := (stat pd)(dbcol := PyInt (case py_int val of
                                                  Some n \<Rightarrow> n
                                                | None \<Rightarrow> 0))\<rparr>))"

definition fill_player :: "'f float_ops \<Rightarrow> stat_row \<Rightarrow> 'f pdict \<Rightarrow> 'f pdict" where
  "fill_player fo row pd0 =
     (let pd1 = fold (populate_stat fo row) player_stat_map pd0;
          pd2 = (case map_of (cells row) ''position'' of
                   None \<Rightarrow> pd1
                 | Some t \<Rightarrow> pd1\<lparr>position := (if t = [] then ''N/A'' else t)\<rparr>);
          pd3 = (case map_of (cells row) ''minutes'' of
                   None \<Rightarrow> pd2
                 | Some t \<Rightarrow> pd2\<lparr>minutes := (case py_int t of Some n \<Rightarrow> n | None \<Rightarrow> 0)\<rparr>)
      in pd3)"

definition player_code :: "string \<Rightarrow> string" where
  "player_code href =
     (case re_search_group ''/en/players/'' (CHR ''/'') href of
        Some g \<Rightarrow> g
      | None \<Rightarrow> sentinel)"

text \<open>The record of the row's player is created at the end of its side's dictionary if it is new, then filled in place.\<close>

definition upsert_player :: "'f float_ops \<Rightarrow> stat_row \<Rightarrow> string \<Rightarrow> string \<Rightarrow> 'f players \<Rightarrow> 'f players" where
  "upsert_player fo row pidv pname ps =
     AList.update pidv
       (fill_player fo row (case map_of ps pidv of
                              None \<Rightarrow> init_player_dict pidv pname
                            | Some pd \<Rightarrow> pd)) ps"

definition process_row ::
  "'f float_ops \<Rightarrow> bool \<Rightarrow> stat_row \<Rightarrow> 'f players \<times> 'f players \<Rightarrow> 'f players \<times> 'f players" where
  "process_row fo is_home row = (\<lambda>(home_players, away_players).
     (case player_link row of
        None \<Rightarrow> (home_players, away_players)
      | Some (href, pname) \<Rightarrow>
          if is_home
          then (upsert_player fo row (player_code href) pname home_players, away_players)
          else (home_players, upsert_player fo row (player_code href) pname away_players)))"

definition table_code :: "stats_table \<Rightarrow> string option" where
  "table_code tbl = re_match_group ''stats_'' (CHR ''_'') (tbl_id tbl)"

definition process_table ::
  "'f float_ops \<Rightarrow> string \<Rightarrow> string \<Rightarrow> stats_table \<Rightarrow>
     'f players \<times> 'f players \<Rightarrow> 'f players \<times> 'f players" where
  "process_table fo home_team_id away_team_id tbl st =
     (case table_code tbl of
        None \<Rightarrow> st
      | Some code \<Rightarrow>
          if code = home_team_id then
            (case tbody tbl of None \<Rightarrow> st | Some rows \<Rightarrow> fold (process_row fo True) rows st)
          else if code = away_team_id then
            (case tbody tbl of None \<Rightarrow> st | Some rows \<Rightarrow> fold (process_row fo False) rows st)
          else st)"

definition parse_stats_tables ::
  "'f float_ops \<Rightarrow> string \<Rightarrow> string \<Rightarrow> stats_table list \<Rightarrow> 'f players \<times> 'f players" where
  "parse_stats_tables fo home_team_id away_team_id tables =
     fold (process_table fo home_team_id away_team_id) tables ([], [])"

text \<open>The codes of the players a table has rows for, and whether a table is one of the two sides'.\<close>

definition row_codes :: "stat_row \<Rightarrow> string list" where
  "row_codes row =
     (case player_link row of
        None \<Rightarrow> []
      | Some (href, pname) \<Rightarrow> [player_code href])"

definition table_player_codes :: "stats_table \<Rightarrow> string list" where
  "table_player_codes tbl =
     (case tbody tbl of
        None \<Rightarrow> []
      | Some rows \<Rightarrow> concat (map row_codes rows))"

definition concerns :: "string \<Rightarrow> string \<Rightarrow> stats_table \<Rightarrow> bool" where
  "concerns home_team_id away_team_id tbl =
     (table_code tbl = Some home_team_id \<or> table_code tbl = Some away_team_id)"

section \<open>Substitution event processor\<close>

datatype side = Home | Away

text \<open>The players' dictionaries of the two sides and the two counters of substitutions.\<close>

type_synonym 'f sub_state = "'f players \<times> 'f players \<times> int \<times> int"

text \<open>\<open>if pid in players: players[pid]['sub_in_out'] = text\<close>; a code that did not resolve is in no dictionary.\<close>

definition set_tag :: "string option \<Rightarrow> string \<Rightarrow> 'f players \<Rightarrow> 'f players" where
  "set_tag pid_opt text ps =
     (case pid_opt of
        None \<Rightarrow> ps
      | Some pid \<Rightarrow> AList.map_entry pid (\<lambda>pd. pd\<lparr>sub_in_out := text\<rparr>) ps)"

definition event_minute :: "event_div \<Rightarrow> string" where
  "event_minute ev =
     (case minute_divs ev of
        [] \<Rightarrow> ''0''
      | min_text # _ \<Rightarrow> (case search_minute min_text of Some g \<Rightarrow> g | None \<Rightarrow> ''0''))"

definition process_event :: "event_div \<Rightarrow> 'f sub_state \<Rightarrow> 'f sub_state" where
  "process_event ev = (\<lambda>(home_players, away_players, home_subs_val, away_subs_val).
     (case icon_classes ev of
        None \<Rightarrow> (home_players, away_players, home_subs_val, away_subs_val)
      | Some icon_cls \<Rightarrow>
          if ''substitute_in'' \<in> set icon_cls then
            (let substitution_team =
                   (if ''a'' \<in> set (event_class ev) then Some Home
                    else if ''b'' \<in> set (event_class ev) then Some Away
                    else None);
                 minute = event_minute ev
             in (case info ev of
                   None \<Rightarrow> (home_players, away_players, home_subs_val, away_subs_val)
                 | Some info_d \<Rightarrow>
                     (case (player_in_tag info_d, player_out_tag info_d) of
                        (Some href_in, Some href_out) \<Rightarrow>
                          (let player_in_id = re_search_group ''/en/players/'' (CHR ''/'') href_in;
                               player_out_id = re_search_group ''/en/players/'' (CHR ''/'') href_out
                           in (case substitution_team of
                                 Some Home \<Rightarrow>
                                   (set_tag player_out_id (''Out | '' @ minute @ prime_mark)
                                      (set_tag player_in_id (''In | '' @ minute @ prime_mark)
                                         home_players),
                                    away_players, home_subs_val + 1, away_subs_val)
                               | Some Away \<Rightarrow>
                                   (home_players,
                                    set_tag player_out_id (''Out | '' @ minute @ prime_mark)
                                      (set_tag player_in_id (''In | '' @ minute @ prime_mark)
                                         away_players),
                                    home_subs_val, away_subs_val + 1)
                               | None \<Rightarrow>
                                   (home_players, away_players, home_subs_val, away_subs_val)))
                      | _ \<Rightarrow> (home_players, away_players, home_subs_val, away_subs_val))))
          else (home_players, away_players, home_subs_val, away_subs_val)))"

definition process_substitutions ::
  "event_div list option \<Rightarrow> 'f players \<times> 'f players \<Rightarrow> 'f sub_state" where
  "process_substitutions wrap = (\<lambda>(home_players, away_players).
     (case wrap of
        None \<Rightarrow> (home_players, away_players, 0, 0)
      | Some event_divs \<Rightarrow> fold process_event event_divs (home_players, away_players, 0, 0)))"

text \<open>The starter flag is then written into every record of both sides.\<close>

definition assign_starters :: "'f players \<Rightarrow> 'f players" where
  "assign_starters ps = map (\<lambda>(pid, pvals). (pid, pvals\<lparr>starter := assign_starter_flag pvals\<rparr>)) ps"

section \<open>Team aggregate summarizer\<close>

text \<open>Python's \<open>+\<close> on the two kinds of number: an \<open>int\<close> meeting a \<open>float\<close> is converted first.\<close>

definition py_add :: "'f float_ops \<Rightarrow> 'f pynum \<Rightarrow> 'f pynum \<Rightarrow> 'f pynum" where
  "py_add fo x y =
     (case (x, y) of
        (PyInt a, PyInt b) \<Rightarrow> PyInt (a + b)
      | (PyInt a, PyFloat b) \<Rightarrow> PyFloat (f_add fo (f_of_int fo a) b)
      | (PyFloat a, PyInt b) \<Rightarrow> PyFloat (f_add fo a (f_of_int fo b))
      | (PyFloat a, PyFloat b) \<Rightarrow> PyFloat (f_add fo a b))"

text \<open>
  \<open>team_sums\<close> has a key \<open>home_\<close>column and \<open>away_\<close>column for every column, all
  created at zero before any is read: a function of the key.
\<close>

type_synonym 'f team_sums = "string \<Rightarrow> 'f pynum"

definition init_team_sums :: "'f team_sums" where
  "init_team_sums = (\<lambda>k. PyInt 0)"

definition sums_key :: "string \<Rightarrow> string \<Rightarrow> string" where
  "sums_key prefix dbcol = prefix @ ''_'' @ dbcol"

definition sum_side :: "'f float_ops \<Rightarrow> 'f players \<Rightarrow> string \<Rightarrow> 'f team_sums \<Rightarrow> 'f team_sums" where
  "sum_side fo pmap prefix team_sums =
     fold (\<lambda>pv ts.
             fold (\<lambda>dbcol ts'.
                     ts'(sums_key prefix dbcol :=
                           py_add fo (ts' (sums_key prefix dbcol)) (stat pv dbcol)))
               stat_cols ts)
       (map snd pmap) team_sums"

text \<open>\<open>sum(...)\<close> starts from the \<open>int\<close> zero; \<open>int(round(x))\<close> of an \<open>int\<close> is the \<open>int\<close>.\<close>

definition py_sum :: "'f float_ops \<Rightarrow> 'f pynum list \<Rightarrow> 'f pynum" where
  "py_sum fo xs = foldl (py_add fo) (PyInt 0) xs"

definition py_round_int :: "'f float_ops \<Rightarrow> 'f pynum \<Rightarrow> int option" where
  "py_round_int fo x = (case x of PyInt n \<Rightarrow> Some n | PyFloat y \<Rightarrow> f_round fo y)"

definition sca_val :: "'f float_ops \<Rightarrow> 'f players \<Rightarrow> int option" where
  "sca_val fo pmap = py_round_int fo (py_sum fo (map (\<lambda>(pid, x). stat x ''sca'') pmap))"

section \<open>Rows and statements\<close>

datatype 'f sqlval = SqlStr string | SqlInt int | SqlFloat 'f | SqlNull

definition sql_of_num :: "'f pynum \<Rightarrow> 'f sqlval" where
  "sql_of_num x = (case x of PyInt n \<Rightarrow> SqlInt n | PyFloat y \<Rightarrow> SqlFloat y)"

definition sql_of_opt :: "string option \<Rightarrow> 'f sqlval" where
  "sql_of_opt x = (case x of None \<Rightarrow> SqlNull | Some s \<Rightarrow> SqlStr s)"

text \<open>
  The two kinds of statement the program sends: the one \<open>generate_insert_sql\<close> builds
  for a table and its columns, an \<open>INSERT\<close> with \<open>ON DUPLICATE KEY UPDATE\<close> of every
  column, run with one tuple of values; and the plain \<open>INSERT\<close> of the shot events, run
  with \<open>executemany\<close> on a batch of tuples.
\<close>

datatype 'f statement =
    Upsert string "string list" "'f sqlval list"
  | InsertMany string "string list" "'f sqlval list list"

abbreviation generate_insert_sql :: "string \<Rightarrow> string list \<Rightarrow> 'f sqlval list \<Rightarrow> 'f statement" where
  "generate_insert_sql table_name columns \<equiv> Upsert table_name columns"

text \<open>The schedule context of a match; the date is the text the program formats it to.\<close>

record ctx =
  date_str :: string
  home_team :: string
  away_team :: string
  comp :: string
  match_url :: string

definition matchup_str :: "ctx \<Rightarrow> string" where
  "matchup_str c = away_team c @ '' @ '' @ home_team c"

definition teams_columns :: "string list" where
  "teams_columns =
     [''date'', ''matchup'', ''comp'', ''home_squad'', ''away_squad'', ''score'',
      ''home_formation'', ''away_formation'', ''home_possession'', ''away_possession'',
      ''home_subs'', ''away_subs'', ''home_shots'', ''away_shots'',
      ''home_shots_on_target'', ''away_shots_on_target'', ''home_fouls'', ''away_fouls'',
      ''home_corner_kicks'', ''away_corner_kicks'', ''home_crosses'', ''away_crosses'',
      ''home_touches'', ''away_touches'', ''home_tackles'', ''away_tackles'',
      ''home_interceptions'', ''away_interceptions'', ''home_passes'', ''away_passes'',
      ''home_shots_assisted'', ''away_shots_assisted'', ''home_take_ons'',
      ''away_take_ons'', ''home_progressive_carries'', ''away_progressive_carries'',
      ''home_clearances'', ''away_clearances'', ''home_tackles_def_3rd'',
      ''away_tackles_def_3rd'', ''home_tackles_mid_3rd'', ''away_tackles_mid_3rd'',
      ''home_tackles_att_3rd'', ''away_tackles_att_3rd'', ''home_blocked_shots'',
      ''away_blocked_shots'', ''home_blocked_passes'', ''away_blocked_passes'',
      ''home_challenges'', ''away_challenges'', ''home_carries_into_final_third'',
      ''away_carries_into_final_third'', ''home_progressive_passes_received'',
      ''away_progressive_passes_received'', ''home_passes_into_final_third'',
      ''away_passes_into_final_third'', ''home_passes_into_penalty_area'',
      ''away_passes_into_penalty_area'', ''home_touches_def_3rd'',
      ''away_touches_def_3rd'', ''home_touches_mid_3rd'', ''away_touches_mid_3rd'',
      ''home_touches_att_3rd'', ''away_touches_att_3rd'', ''home_touches_att_pen_area'',
      ''away_touches_att_pen_area'', ''match_report_url'', ''home_sca'', ''away_sca'',
      ''home_team_id'', ''away_team_id'']"

text \<open>What the metadata extractor, the resolver and the substitution processor hand to the team row.\<close>

record match_meta =
  mm_final_score :: string
  mm_home_formation :: string
  mm_away_formation :: string
  mm_home_pos :: string
  mm_away_pos :: string
  mm_home_subs_val :: int
  mm_away_subs_val :: int
  mm_home_team_id :: string
  mm_away_team_id :: string

definition teams_param ::
  "ctx \<Rightarrow> match_meta \<Rightarrow> 'f team_sums \<Rightarrow> int \<Rightarrow> int \<Rightarrow> 'f sqlval list" where
  "teams_param c mm team_sums home_sca_val away_sca_val =
     (let final_score = mm_final_score mm;
          home_formation = mm_home_formation mm; away_formation = mm_away_formation mm;
          home_pos = mm_home_pos mm; away_pos = mm_away_pos mm;
          home_subs_val = mm_home_subs_val mm; away_subs_val = mm_away_subs_val mm;
          home_team_id = mm_home_team_id mm; away_team_id = mm_away_team_id mm
      in
     [SqlStr (date_str c), SqlStr (matchup_str c), SqlStr (comp c), SqlStr (home_team c),
      SqlStr (away_team c), SqlStr final_score, SqlStr home_formation,
      SqlStr away_formation, SqlStr home_pos, SqlStr away_pos, SqlInt home_subs_val,
      SqlInt away_subs_val, sql_of_num (team_sums ''home_shots''),
      sql_of_num (team_sums ''away_shots''),
      sql_of_num (team_sums ''home_shots_on_target''),
      sql_of_num (team_sums ''away_shots_on_target''),
      sql_of_num (team_sums ''home_fouls''), sql_of_num (team_sums ''away_fouls''),
      sql_of_num (team_sums ''home_corner_kicks''),
      sql_of_num (team_sums ''away_corner_kicks''),
      sql_of_num (team_sums ''home_crosses''), sql_of_num (team_sums ''away_crosses''),
      sql_of_num (team_sums ''home_touches''), sql_of_num (team_sums ''away_touches''),
      sql_of_num (team_sums ''home_tackles''), sql_of_num (team_sums ''away_tackles''),
      sql_of_num (team_sums ''home_interceptions''),
      sql_of_num (team_sums ''away_interceptions''),
      sql_of_num (team_sums ''home_passes''), sql_of_num (team_sums ''away_passes''),
      sql_of_num (team_sums ''home_shots_assisted''),
      sql_of_num (team_sums ''away_shots_assisted''),
      sql_of_num (team_sums ''home_take_ons''), sql_of_num (team_sums ''away_take_ons''),
      sql_of_num (team_sums ''home_progressive_carries''),
      sql_of_num (team_sums ''away_progressive_carries''),
      sql_of_num (team_sums ''home_clearances''),
      sql_of_num (team_sums ''away_clearances''),
      sql_of_num (team_sums ''home_tackles_def_3rd''),
      sql_of_num (team_sums ''away_tackles_def_3rd''),
      sql_of_num (team_sums ''home_tackles_mid_3rd''),
      sql_of_num (team_sums ''away_tackles_mid_3rd''),
      sql_of_num (team_sums ''home_tackles_att_3rd''),
      sql_of_num (team_sums ''away_tackles_att_3rd''),
      sql_of_num (team_sums ''home_blocked_shots''),
      sql_of_num (team_sums ''away_blocked_shots''),
      sql_of_num (team_sums ''home_blocked_passes''),
      sql_of_num (team_sums ''away_blocked_passes''),
      sql_of_num (team_sums ''home_challenges''),
      sql_of_num (team_sums ''away_challenges''),
      sql_of_num (team_sums ''home_carries_into_final_third''),
      sql_of_num (team_sums ''away_carries_into_final_third''),
      sql_of_num (team_sums ''home_progressive_passes_received''),
      sql_of_num (team_sums ''away_progressive_passes_received''),
      sql_of_num (team_sums ''home_passes_into_final_third''),
      sql_of_num (team_sums ''away_passes_into_final_third''),
      sql_of_num (team_sums ''home_passes_into_penalty_area''),
      sql_of_num (team_sums ''away_passes_into_penalty_area''),
      sql_of_num (team_sums ''home_touches_def_3rd''),
      sql_of_num (team_sums ''away_touches_def_3rd''),
      sql_of_num (team_sums ''home_touches_mid_3rd''),
      sql_of_num (team_sums ''away_touches_mid_3rd''),
      sql_of_num (team_sums ''home_touches_att_3rd''),
      sql_of_num (team_sums ''away_touches_att_3rd''),
      sql_of_num (team_sums ''home_touches_att_pen_area''),
      sql_of_num (team_sums ''away_touches_att_pen_area''), SqlStr (match_url c),
      SqlInt home_sca_val, SqlInt away_sca_val, SqlStr home_team_id, SqlStr away_team_id])"

definition players_columns :: "string list" where
  "players_columns =
     [''date'', ''matchup'', ''comp'', ''player'', ''player_id'', ''position'',
      ''squad'', ''opponent'', ''home_away'', ''minutes'', ''starter'', ''shots'',
      ''shots_on_target'', ''fouls'', ''corner_kicks'', ''crosses'', ''touches'',
      ''tackles'', ''interceptions'', ''passes'', ''shots_assisted'', ''take_ons'',
      ''progressive_carries'', ''clearances'', ''tackles_def_3rd'', ''tackles_mid_3rd'',
      ''tackles_att_3rd'', ''blocked_shots'', ''blocked_passes'', ''challenges'',
      ''carries_into_final_third'', ''progressive_passes_received'',
      ''passes_into_final_third'', ''passes_into_penalty_area'', ''touches_def_3rd'',
      ''touches_mid_3rd'', ''touches_att_3rd'', ''touches_att_pen_area'', ''sca'',
      ''sub_in_out'', ''match_report_url'']"

definition param_player :: "ctx \<Rightarrow> string \<Rightarrow> string \<Rightarrow> string \<Rightarrow> 'f pdict \<Rightarrow> 'f sqlval list" where
  "param_player c squad_name opp_name home_away_val pd =
     [SqlStr (date_str c), SqlStr (matchup_str c), SqlStr (comp c), SqlStr (player pd),
      SqlStr (player_id pd), SqlStr (position pd), SqlStr squad_name, SqlStr opp_name,
      SqlStr home_away_val, SqlInt (minutes pd), SqlStr (starter pd),
      sql_of_num (stat pd ''shots''), sql_of_num (stat pd ''shots_on_target''),
      sql_of_num (stat pd ''fouls''), sql_of_num (stat pd ''corner_kicks''),
      sql_of_num (stat pd ''crosses''), sql_of_num (stat pd ''touches''),
      sql_of_num (stat pd ''tackles''), sql_of_num (stat pd ''interceptions''),
      sql_of_num (stat pd ''passes''), sql_of_num (stat pd ''shots_assisted''),
      sql_of_num (stat pd ''take_ons''), sql_of_num (stat pd ''progressive_carries''),
      sql_of_num (stat pd ''clearances''), sql_of_num (stat pd ''tackles_def_3rd''),
      sql_of_num (stat pd ''tackles_mid_3rd''), sql_of_num (stat pd ''tackles_att_3rd''),
      sql_of_num (stat pd ''blocked_shots''), sql_of_num (stat pd ''blocked_passes''),
      sql_of_num (stat pd ''challenges''),
      sql_of_num (stat pd ''carries_into_final_third''),
      sql_of_num (stat pd ''progressive_passes_received''),
      sql_of_num (stat pd ''passes_into_final_third''),
      sql_of_num (stat pd ''passes_into_penalty_area''),
      sql_of_num (stat pd ''touches_def_3rd''), sql_of_num (stat pd ''touches_mid_3rd''),
      sql_of_num (stat pd ''touches_att_3rd''),
      sql_of_num (stat pd ''touches_att_pen_area''), sql_of_num (stat pd ''sca''),
      SqlStr (sub_in_out pd), SqlStr (match_url c)]"

definition insert_players ::
  "ctx \<Rightarrow> 'f players \<Rightarrow> string \<Rightarrow> string \<Rightarrow> string \<Rightarrow> 'f statement list" where
  "insert_players c p_map squad_name opp_name home_away_val =
     map (\<lambda>(pid, pd). generate_insert_sql ''all_matchups_players'' players_columns
                        (param_player c squad_name opp_name home_away_val pd)) p_map"

section \<open>Shot event extractor\<close>

definition get_value_from_td_or_th :: "shot_row \<Rightarrow> string \<Rightarrow> string option" where
  "get_value_from_td_or_th row data_stat = map_option cell_text (map_of (shot_cells row) data_stat)"

definition get_player_id :: "shot_row \<Rightarrow> string \<Rightarrow> string option" where
  "get_player_id row data_stat =
     (case map_of (shot_cells row) data_stat of
        None \<Rightarrow> None
      | Some tag \<Rightarrow>
          (let from_href =
                 (case cell_href tag of
                    None \<Rightarrow> None
                  | Some href_val \<Rightarrow>
                      (let parts = split (CHR ''/'') href_val in
                       if length parts > 3 then Some (parts ! 3) else None))
           in (case append_csv tag of
                 None \<Rightarrow> from_href
               | Some a \<Rightarrow> if a \<noteq> [] then Some (strip a) else from_href)))"

definition events_columns :: "string list" where
  "events_columns =
     [''match_report_url'', ''minute'', ''player_id'', ''player'', ''squad'', ''outcome'',
      ''distance'', ''body_part'', ''sca_1_player_id'', ''sca_1_player'', ''sca_1_event'',
      ''sca_2_player_id'', ''sca_2_player'', ''sca_2_event'']"

text \<open>The tuple of one row of the shot log, or nothing for a row that is passed over.\<close>

definition shot_tuple :: "ctx \<Rightarrow> shot_row \<Rightarrow> 'f sqlval list option" where
  "shot_tuple c row =
     (if ''spacer'' \<in> set (row_class row) \<or> ''partial_table'' \<in> set (row_class row) then None
      else
        (let minute_val = get_value_from_td_or_th row ''minute'';
             player_val = get_value_from_td_or_th row ''player'';
             squad_val = get_value_from_td_or_th row ''team'';
             outcome_val = get_value_from_td_or_th row ''outcome'';
             distance_val = get_value_from_td_or_th row ''distance'';
             body_part_val = get_value_from_td_or_th row ''body_part'';
             sca_1_player = get_value_from_td_or_th row ''sca_1_player'';
             sca_1_event = get_value_from_td_or_th row ''sca_1_type'';
             sca_2_player = get_value_from_td_or_th row ''sca_2_player'';
             sca_2_event = get_value_from_td_or_th row ''sca_2_type'';
             player_id_val = get_player_id row ''player'';
             sca_1_player_id_val = get_player_id row ''sca_1_player'';
             sca_2_player_id_val = get_player_id row ''sca_2_player''
         in if minute_val = None \<or> minute_val = Some [] \<or> player_val = None \<or> player_val = Some []
            then None
            else Some [SqlStr (match_url c), sql_of_opt minute_val, sql_of_opt player_id_val,
                       sql_of_opt player_val, sql_of_opt squad_val, sql_of_opt outcome_val,
                       sql_of_opt distance_val, sql_of_opt body_part_val,
                       sql_of_opt sca_1_player_id_val, sql_of_opt sca_1_player,
                       sql_of_opt sca_1_event, sql_of_opt sca_2_player_id_val,
                       sql_of_opt sca_2_player, sql_of_opt sca_2_event]))"

definition data_batch_of :: "ctx \<Rightarrow> doc \<Rightarrow> 'f sqlval list list" where
  "data_batch_of c d =
     (case shots_table d of
        None \<Rightarrow> []
      | Some None \<Rightarrow> []
      | Some (Some rows) \<Rightarrow> concat (map (\<lambda>row. case shot_tuple c row of
                                                    None \<Rightarrow> []
                                                  | Some t \<Rightarrow> [t]) rows))"

abbreviation insert_events_sql :: "'f sqlval list list \<Rightarrow> 'f statement" where
  "insert_events_sql \<equiv> InsertMany ''match_events'' events_columns"

definition insert_events :: "ctx \<Rightarrow> doc \<Rightarrow> 'f statement list" where
  "insert_events c d =
     (let data_batch = data_batch_of c d in
      if data_batch \<noteq> [] then [insert_events_sql data_batch] else [])"

section \<open>Deriving the batch of one match\<close>

definition normalize_url :: "string \<Rightarrow> string" where
  "normalize_url u = (if startswith u ''fbref.com'' then ''https://'' @ u else u)"

text \<open>
  Everything the program derives from a document that has its score box, up to the
  starter flags: the two dictionaries of players, the values for the team row, and the
  warnings of the resolver.
\<close>

definition derive_match ::
  "'f float_ops \<Rightarrow> ctx \<Rightarrow> doc \<Rightarrow> scorebox \<Rightarrow>
     'f players \<times> 'f players \<times> match_meta \<times> warning list" where
  "derive_match fo c d sb =
     (let (home_team_id, away_team_id, warnings) = resolve_team_ids (home_team c) (away_team c) sb;
          final_score = final_score_of sb;
          (home_pos, away_pos) = possession_of d;
          (home_formation, away_formation) = formations_of d;
          (home_players, away_players, home_subs_val, away_subs_val) =
             process_substitutions (events_wrap d)
               (parse_stats_tables fo home_team_id away_team_id (stats_tables d))
      in (assign_starters home_players, assign_starters away_players,
          \<lparr>mm_final_score = final_score,
           mm_home_formation = home_formation, mm_away_formation = away_formation,
           mm_home_pos = home_pos, mm_away_pos = away_pos,
           mm_home_subs_val = home_subs_val, mm_away_subs_val = away_subs_val,
           mm_home_team_id = home_team_id, mm_away_team_id = away_team_id\<rparr>,
          warnings))"

definition team_sums_of :: "'f float_ops \<Rightarrow> 'f players \<Rightarrow> 'f players \<Rightarrow> 'f team_sums" where
  "team_sums_of fo home_players away_players =
     sum_side fo away_players ''away'' (sum_side fo home_players ''home'' init_team_sums)"

text \<open>
  The statements of the batch, in the order they are sent; nothing when rounding a sum of
  shot-creating actions raises, which ends the run before the storage is opened.
\<close>

definition build_statements ::
  "'f float_ops \<Rightarrow> ctx \<Rightarrow> doc \<Rightarrow> 'f players \<times> 'f players \<times> match_meta \<times> warning list \<Rightarrow>
     'f statement list option" where
  "build_statements fo c d = (\<lambda>(home_players, away_players, mm, warnings).
     (let team_sums = team_sums_of fo home_players away_players in
      case sca_val fo home_players of
        None \<Rightarrow> None
      | Some home_sca_val \<Rightarrow>
          (case sca_val fo away_players of
             None \<Rightarrow> None
           | Some away_sca_val \<Rightarrow>
               Some (generate_insert_sql ''all_matchups_teams'' teams_columns
                        (teams_param c mm team_sums home_sca_val away_sca_val)
                     # insert_players c home_players (home_team c) (away_team c) ''home''
                     @ insert_players c away_players (away_team c) (home_team c) ''away''
                     @ insert_events c d))))"

section \<open>Persistence\<close>

text \<open>
  The storage behind the connection is a collaborator of the program: \<open>connect_ok\<close> says
  whether \<open>get_db_connection\<close> returns, \<open>exec\<close> is the effect of one statement on what
  the open transaction sees (\<open>None\<close> when it raises \<open>Error\<close>), \<open>commit_ok\<close> whether the
  commit of that state goes through, \<open>still_connected\<close> what \<open>is_connected\<close> answers in
  the handler.
\<close>

record ('db, 'f) backend =
  connect_ok :: bool
  exec :: "'db \<Rightarrow> 'f statement \<Rightarrow> 'db option"
  commit_ok :: "'db \<Rightarrow> bool"
  still_connected :: bool

text \<open>
  A connection with autocommit off: what is stored, and what the open transaction sees.
  Only a commit changes what is stored; closing drops the open transaction.
\<close>

record 'db conn =
  committed :: 'db
  working :: 'db

definition commit :: "'db conn \<Rightarrow> 'db conn" where
  "commit cn = cn\<lparr>committed := working cn\<rparr>"

definition rollback :: "'db conn \<Rightarrow> 'db conn" where
  "rollback cn = cn\<lparr>working := committed cn\<rparr>"

definition close :: "'db conn \<Rightarrow> 'db" where
  "close cn = committed cn"

text \<open>The statements are sent in order; the first one that raises ends the sequence.\<close>

fun execute_all ::
  "('db \<Rightarrow> 'f statement \<Rightarrow> 'db option) \<Rightarrow> 'f statement list \<Rightarrow> 'db conn \<Rightarrow> bool \<times> 'db conn" where
  "execute_all ex [] cn = (True, cn)"
| "execute_all ex (s # ss) cn =
     (case ex (working cn) s of
        None \<Rightarrow> (False, cn)
      | Some w \<Rightarrow> execute_all ex ss (cn\<lparr>working := w\<rparr>))"

datatype outcome = RequestError | NoScorebox | RoundError | DBInsertError | Inserted

definition on_error :: "('db, 'f) backend \<Rightarrow> 'db conn \<Rightarrow> outcome \<times> 'db" where
  "on_error be cn = (DBInsertError, close (if still_connected be then rollback cn else cn))"

definition persist :: "('db, 'f) backend \<Rightarrow> 'f statement list \<Rightarrow> 'db \<Rightarrow> outcome \<times> 'db" where
  "persist be stmts db =
     (if \<not> connect_ok be then (DBInsertError, db)
      else
        (case execute_all (exec be) stmts \<lparr>committed = db, working = db\<rparr> of
           (False, cn) \<Rightarrow> on_error be cn
         | (True, cn) \<Rightarrow>
             if commit_ok be (working cn) then (Inserted, close (commit cn))
             else on_error be cn))"

section \<open>One match\<close>

text \<open>\<open>resp\<close> is the parsed answer to the request for the address, if the request went through.\<close>

definition scrape_and_insert_match_data ::
  "'f float_ops \<Rightarrow> ('db, 'f) backend \<Rightarrow> ctx \<Rightarrow> doc option \<Rightarrow> 'db \<Rightarrow> outcome \<times> 'db" where
  "scrape_and_insert_match_data fo be c0 resp db =
     (let c = c0\<lparr>match_url := normalize_url (match_url c0)\<rparr> in
      case resp of
        None \<Rightarrow> (RequestError, db)
      | Some d \<Rightarrow>
          (case find_scorebox d of
             None \<Rightarrow> (NoScorebox, db)
           | Some sb \<Rightarrow>
               (case build_statements fo c d (derive_match fo c d sb) of
                  None \<Rightarrow> (RoundError, db)
                | Some stmts \<Rightarrow> persist be stmts db)))"

section \<open>A store with unique keys\<close>

text \<open>
  The tables are not declared in the repository. A store is taken with, for each table, the
  columns of its unique key if it has one among the columns the statements write; a key
  over a generated column (a row number) never clashes and counts as no key. A row is the
  list of its written columns with their values.
\<close>

type_synonym 'f row = "(string \<times> 'f sqlval) list"

type_synonym 'f db = "string \<Rightarrow> 'f row list"

type_synonym schema = "string \<Rightarrow> string list option"

definition row_key :: "string list \<Rightarrow> 'f row \<Rightarrow> 'f sqlval option list" where
  "row_key cols r = map (map_of r) cols"

text \<open>\<open>INSERT ... ON DUPLICATE KEY UPDATE\<close> of every column: the row that clashes takes the new values.\<close>

definition upsert_row :: "string list option \<Rightarrow> 'f row \<Rightarrow> 'f row list \<Rightarrow> 'f row list" where
  "upsert_row key r rows =
     (case key of
        None \<Rightarrow> rows @ [r]
      | Some cols \<Rightarrow>
          if row_key cols r \<in> set (map (row_key cols) rows)
          then map (\<lambda>r'. if row_key cols r' = row_key cols r then r else r') rows
          else rows @ [r])"

text \<open>A plain \<open>INSERT\<close>: the row is added, and a clash with a unique key raises.\<close>

definition insert_row :: "string list option \<Rightarrow> 'f row \<Rightarrow> 'f row list \<Rightarrow> 'f row list option" where
  "insert_row key r rows =
     (case key of
        None \<Rightarrow> Some (rows @ [r])
      | Some cols \<Rightarrow>
          if row_key cols r \<in> set (map (row_key cols) rows) then None
          else Some (rows @ [r]))"

fun insert_rows :: "string list option \<Rightarrow> 'f row list \<Rightarrow> 'f row list \<Rightarrow> 'f row list option" where
  "insert_rows key [] rows = Some rows"
| "insert_rows key (r # rs) rows =
     (case insert_row key r rows of
        None \<Rightarrow> None
      | Some rows' \<Rightarrow> insert_rows key rs rows')"

definition mysql_exec :: "schema \<Rightarrow> 'f db \<Rightarrow> 'f statement \<Rightarrow> 'f db option" where
  "mysql_exec sch db st =
     (case st of
        Upsert t cols vals \<Rightarrow>
          if length cols = length vals
          then Some (db(t := upsert_row (sch t) (zip cols vals) (db t)))
          else None
      | InsertMany t cols batch \<Rightarrow>
          if list_all (\<lambda>vals. length vals = length cols) batch
          then map_option (\<lambda>rows. db(t := rows)) (insert_rows (sch t) (map (zip cols) batch) (db t))
          else None)"

definition mysql_backend :: "schema \<Rightarrow> ('f db, 'f) backend" where
  "mysql_backend sch =
     \<lparr>connect_ok = True, exec = mysql_exec sch, commit_ok = (\<lambda>db. True), still_connected = True\<rparr>"

section \<open>Notions used in the statements\<close>

text \<open>
  For the statements about an event: the side and the two references of an event that the
  processor counts, and the two tags it writes for it.
\<close>

definition substitution_of :: "event_div \<Rightarrow> (side \<times> string \<times> string) option" where
  "substitution_of ev =
     (case icon_classes ev of
        None \<Rightarrow> None
      | Some icon_cls \<Rightarrow>
          if ''substitute_in'' \<in> set icon_cls then
            (case info ev of
               None \<Rightarrow> None
             | Some info_d \<Rightarrow>
                 (case (player_in_tag info_d, player_out_tag info_d) of
                    (Some href_in, Some href_out) \<Rightarrow>
                      if ''a'' \<in> set (event_class ev) then Some (Home, href_in, href_out)
                      else if ''b'' \<in> set (event_class ev) then Some (Away, href_in, href_out)
                      else None
                  | _ \<Rightarrow> None))
          else None)"

definition tag_both :: "string \<Rightarrow> string \<Rightarrow> string \<Rightarrow> 'f players \<Rightarrow> 'f players" where
  "tag_both minute href_in href_out ps =
     set_tag (re_search_group ''/en/players/'' (CHR ''/'') href_out) (render_tag (TagOut minute))
       (set_tag (re_search_group ''/en/players/'' (CHR ''/'') href_in) (render_tag (TagIn minute)) ps)"

text \<open>For the statements about a batch: the store after all its statements, if none of them raises.\<close>

fun run_all :: "('db \<Rightarrow> 'f statement \<Rightarrow> 'db option) \<Rightarrow> 'f statement list \<Rightarrow> 'db \<Rightarrow> 'db option" where
  "run_all ex [] w = Some w"
| "run_all ex (s # ss) w = (case ex w s of None \<Rightarrow> None | Some w' \<Rightarrow> run_all ex ss w')"

text \<open>
  For the statements about the sums: the columns that hold an \<open>int\<close>, and the records
  all of whose columns but the shot-creating actions hold one.
\<close>

definition int_cols :: "string list" where
  "int_cols = filter (\<lambda>col. col \<noteq> ''sca'') stat_cols"



text \<open>
  For the statements about a second run: the well-formed upserts, the rows a list of
  statements upserts into a table, and the upserts of a batch (the team row, then the
  player rows of the home side, then those of the away side).
\<close>

fun is_upsert :: "'f statement \<Rightarrow> bool" where
  "is_upsert (Upsert t cols vals) = (length cols = length vals)"
| "is_upsert (InsertMany t cols batch) = False"

fun rows_for :: "string \<Rightarrow> 'f statement list \<Rightarrow> 'f row list" where
  "rows_for t [] = []"
| "rows_for t (Upsert t' cols vals # ss) =
     (if t' = t then zip cols vals # rows_for t ss else rows_for t ss)"
| "rows_for t (InsertMany t' cols batch # ss) = rows_for t ss"

definition upserts_of :: "'f float_ops \<Rightarrow> ctx \<Rightarrow> 'f players \<Rightarrow> 'f players \<Rightarrow> match_meta \<Rightarrow>
    int \<Rightarrow> int \<Rightarrow> 'f statement list" where
  "upserts_of fo c hp ap mm h a =
     Upsert ''all_matchups_teams'' teams_columns (teams_param c mm (team_sums_of fo hp ap) h a)
     # insert_players c hp (home_team c) (away_team c) ''home''
     @ insert_players c ap (away_team c) (home_team c) ''away''"




section \<open>Example documents\<close>

text \<open>A report with a score box without scores and the line-up block of the home side only.\<close>

definition example_home_lineup_only :: doc where
  "example_home_lineup_only =
     \<lparr>find_scorebox = Some \<lparr>squad_links = [], score_divs = []\<rparr>,
      possession_tds = None, home_lineup_div = Some (Some ''Arsenal (4-3-3)''),
      away_lineup_div = None, stats_tables = [], events_wrap = None, shots_table = None\<rparr>"

text \<open>An instance of the float operations for the examples: the floats that are whole numbers.\<close>

definition whole_float_ops :: "int float_ops" where
  "whole_float_ops = \<lparr>f_of_int = (\<lambda>n. n), f_add = (\<lambda>x y. x + y), f_parse = py_int, f_round = Some\<rparr>"

text \<open>A substitution of the home side whose incoming player has no record, and the record of the outgoing one.\<close>

definition example_sub_event :: event_div where
  "example_sub_event =
     \<lparr>icon_classes = Some [''event_icon'', ''substitute_in''],
      event_class = [''event'', ''a''],
      minute_divs = [''46'' @ prime_mark],
      info = Some \<lparr>player_in_tag = Some ''/en/players/aaaa1111/New-Man'',
                   player_out_tag = Some ''/en/players/bbbb2222/Old-Man''\<rparr>\<rparr>"

definition example_home_players :: "int players" where
  "example_home_players = [(''bbbb2222'', init_player_dict ''bbbb2222'' ''Old Man'')]"

text \<open>A table of the home side and a table of a third team.\<close>

definition example_tables :: "stats_table list" where
  "example_tables =
     [\<lparr>tbl_id = ''stats_hhhh0000_summary'',
       tbody = Some [\<lparr>player_link = Some (''/en/players/bbbb2222/Old-Man'', ''Old Man''),
                      cells = [(''shots'', ''3''), (''sca'', ''2''), (''minutes'', ''90'')]\<rparr>]\<rparr>,
      \<lparr>tbl_id = ''stats_xxxx9999_summary'',
       tbody = Some [\<lparr>player_link = Some (''/en/players/cccc3333/Third-Man'', ''Third Man''),
                      cells = [(''shots'', ''5'')]\<rparr>]\<rparr>]"

text \<open>
  A store with the natural keys of the team and player tables and no key on the written
  columns of the shot events; a store that refuses every insert of shot events; a match
  with players of both sides and one shot; the same report without its score box.
\<close>

definition example_schema :: schema where
  "example_schema =
     (\<lambda>t. if t = ''all_matchups_teams'' then Some [''date'', ''matchup'', ''comp'']
          else if t = ''all_matchups_players''
          then Some [''date'', ''matchup'', ''player_id'', ''home_away'']
          else None)"

definition empty_db :: "int db" where
  "empty_db = (\<lambda>t. [])"

definition refusing_events_backend :: "(int db, int) backend" where
  "refusing_events_backend =
     \<lparr>connect_ok = True,
      exec = (\<lambda>db s. case s of
                        InsertMany t cols batch \<Rightarrow> None
                      | Upsert t cols vals \<Rightarrow> mysql_exec example_schema db s),
      commit_ok = (\<lambda>db. True), still_connected = True\<rparr>"

definition example_ctx :: ctx where
  "example_ctx =
     \<lparr>date_str = ''2021-08-13'', home_team = ''Brentford'', away_team = ''Arsenal'',
      comp = ''Premier League'', match_url = ''fbref.com/en/matches/3adf2aa7/Brentford-Arsenal''\<rparr>"

definition example_match :: doc where
  "example_match =
     \<lparr>find_scorebox = Some \<lparr>squad_links = [(''Brentford'', ''/en/squads/cd051869/Brentford-Stats''),
                                             (''Arsenal'', ''/en/squads/18bb7c10/Arsenal-Stats'')],
                              score_divs = [''2'', ''0'']\<rparr>,
      possession_tds = Some [Some ''35%'', Some ''65%''],
      home_lineup_div = Some (Some ''Brentford (3-5-2)''),
      away_lineup_div = Some (Some ''Arsenal (4-2-3-1)''),
      stats_tables =
        [\<lparr>tbl_id = ''stats_cd051869_summary'',
          tbody = Some [\<lparr>player_link = Some (''/en/players/aaaa1111/Ivan-Toney'', ''Ivan Toney''),
                         cells = [(''shots'', ''3''), (''sca'', ''2''), (''minutes'', ''90'')]\<rparr>,
                        \<lparr>player_link = Some (''/en/players/bbbb2222/Sergi-Canos'', ''Sergi Canos''),
                         cells = [(''shots'', ''1''), (''sca'', ''1''), (''minutes'', ''60'')]\<rparr>]\<rparr>,
         \<lparr>tbl_id = ''stats_18bb7c10_summary'',
          tbody = Some [\<lparr>player_link = Some (''/en/players/cccc3333/Bukayo-Saka'', ''Bukayo Saka''),
                         cells = [(''shots'', ''4''), (''sca'', ''5''), (''minutes'', ''30'')]\<rparr>]\<rparr>],
      events_wrap = None,
      shots_table = Some (Some [\<lparr>row_class = [],
                                  shot_cells = [(''minute'', \<lparr>cell_text = ''22'', append_csv = None, cell_href = None\<rparr>),
                                                (''player'', \<lparr>cell_text = ''Sergi Canos'', append_csv = Some ''bbbb2222'', cell_href = None\<rparr>)]\<rparr>])\<rparr>"

definition example_no_scorebox :: doc where
  "example_no_scorebox = example_match\<lparr>find_scorebox := None\<rparr>"

text \<open>The score box of the example match.\<close>

definition example_scorebox :: scorebox where
  "example_scorebox =
     \<lparr>squad_links = [(''Brentford'', ''/en/squads/cd051869/Brentford-Stats''),
                     (''Arsenal'', ''/en/squads/18bb7c10/Arsenal-Stats'')],
      score_divs = [''2'', ''0'']\<rparr>"

text \<open>The row of the one shot of the example match.\<close>

definition example_shot_row :: "int row" where
  "example_shot_row =
     [(''match_report_url'', SqlStr ''https://fbref.com/en/matches/3adf2aa7/Brentford-Arsenal''),
      (''minute'', SqlStr ''22''), (''player_id'', SqlStr ''bbbb2222''),
      (''player'', SqlStr ''Sergi Canos''), (''squad'', SqlNull), (''outcome'', SqlNull),
      (''distance'', SqlNull), (''body_part'', SqlNull), (''sca_1_player_id'', SqlNull),
      (''sca_1_player'', SqlNull), (''sca_1_event'', SqlNull), (''sca_2_player_id'', SqlNull),
      (''sca_2_player'', SqlNull), (''sca_2_event'', SqlNull)]"

text \<open>A report with nothing but an empty score box.\<close>

definition example_scorebox_only :: doc where
  "example_scorebox_only =
     \<lparr>find_scorebox = Some \<lparr>squad_links = [], score_divs = []\<rparr>,
      possession_tds = None, home_lineup_div = None, away_lineup_div = None,
      stats_tables = [], events_wrap = None, shots_table = None\<rparr>"

section \<open>Facts about the string functions\<close>

lemma startswith_append: "startswith (p @ s) p"
  by (induction p) auto

lemma startswith_iff: "startswith s p \<longleftrightarrow> (\<exists>r. s = p @ r)"
  by (induction s p rule: startswith.induct) auto

lemma py_in_iff: "py_in sub s \<longleftrightarrow> (\<exists>pre post. s = pre @ sub @ post)"
proof (induction s)
  case Nil
  then show ?case by auto
next
  case (Cons c cs)
  show ?case
  proof
    assume "py_in sub (c # cs)"
    then consider "startswith (c # cs) sub" | "py_in sub cs" by auto
    then show "\<exists>pre post. c # cs = pre @ sub @ post"
    proof cases
      case 1
      then obtain r where "c # cs = sub @ r" by (auto simp: startswith_iff)
      then have "c # cs = [] @ sub @ r" by simp
      then show ?thesis by blast
    next
      case 2
      then obtain pre post where "cs = pre @ sub @ post" using Cons.IH by auto
      then have "c # cs = (c # pre) @ sub @ post" by simp
      then show ?thesis by blast
    qed
  next
    assume "\<exists>pre post. c # cs = pre @ sub @ post"
    then obtain pre post where e: "c # cs = pre @ sub @ post" by auto
    show "py_in sub (c # cs)"
    proof (cases pre)
      case Nil
      then have "startswith (c # cs) sub" using e by (auto simp: startswith_iff)
      then show ?thesis by simp
    next
      case (Cons a pre')
      then have "cs = pre' @ sub @ post" using e by simp
      then have "py_in sub cs" using Cons.IH by blast
      then show ?thesis by simp
    qed
  qed
qed

lemma py_in_hd: "py_in (x # xs) s \<Longrightarrow> x \<in> set s"
  unfolding py_in_iff by auto

lemma lower_char_other:
  "c \<notin> set ''ABCDEFGHIJKLMNOPQRSTUVWXYZ'' \<Longrightarrow> lower_char c = c"
proof -
  assume a: "c \<notin> set ''ABCDEFGHIJKLMNOPQRSTUVWXYZ''"
  have "map_of (zip ''ABCDEFGHIJKLMNOPQRSTUVWXYZ'' ''abcdefghijklmnopqrstuvwxyz'') c = None"
    using a by (subst map_of_zip_is_None) simp_all
  then show ?thesis by (simp only: lower_char_def option.case)
qed

lemma digit_not_upper: "is_digit c \<Longrightarrow> c \<notin> set ''ABCDEFGHIJKLMNOPQRSTUVWXYZ''"
  unfolding is_digit_def by auto

lemma lower_char_digit: "is_digit c \<Longrightarrow> lower_char c = c"
  by (rule lower_char_other) (rule digit_not_upper)

lemma lower_digits: "\<forall>c \<in> set m. is_digit c \<Longrightarrow> lower m = m"
  by (induction m) (auto simp: lower_def lower_char_digit)

lemma lower_append: "lower (a @ b) = lower a @ lower b"
  by (simp add: lower_def)


lemma tag_components:
  assumes "\<forall>c \<in> set m. is_digit c"
  shows "\<not> has_out (render_tag NoTag)" "\<not> has_in (render_tag NoTag)" "tag_absent (render_tag NoTag)"
    "\<not> has_out (render_tag (TagIn m))" "has_in (render_tag (TagIn m))" "\<not> tag_absent (render_tag (TagIn m))"
    "has_out (render_tag (TagOut m))" "\<not> has_in (render_tag (TagOut m))" "\<not> tag_absent (render_tag (TagOut m))"
proof -
  have lm: "lower m = m" using assms by (rule lower_digits)
  have no: "CHR ''o'' \<notin> set m" "CHR ''i'' \<notin> set m" using assms by (auto simp: is_digit_def)
  show "\<not> has_out (render_tag NoTag)" "\<not> has_in (render_tag NoTag)" "tag_absent (render_tag NoTag)"
    by (simp_all add: has_out_def has_in_def tag_absent_def lower_def lower_char_def)
  have lp: "lower prime_mark = prime_mark" "lower ''In | '' = ''in | ''" "lower ''Out | '' = ''out | ''"
    by (simp_all add: lower_def lower_char_def prime_mark_def)
  have li: "lower (render_tag (TagIn m)) = ''in | '' @ m @ prime_mark"
    by (simp only: render_tag.simps lower_append lm lp)
  have lo: "lower (render_tag (TagOut m)) = ''out | '' @ m @ prime_mark"
    by (simp only: render_tag.simps lower_append lm lp)
  show "\<not> has_out (render_tag (TagIn m))"
    using no py_in_hd[of "CHR ''o''" "''ut''" "lower (render_tag (TagIn m))"]
    unfolding has_out_def li by (auto simp: prime_mark_def)
  show "has_in (render_tag (TagIn m))"
    unfolding has_in_def li by simp
  show "\<not> tag_absent (render_tag (TagIn m))"
    unfolding tag_absent_def li by simp
  show "has_out (render_tag (TagOut m))"
    unfolding has_out_def lo by simp
  show "\<not> has_in (render_tag (TagOut m))"
    using no py_in_hd[of "CHR ''i''" "''n''" "lower (render_tag (TagOut m))"]
    unfolding has_in_def lo by (auto simp: prime_mark_def)
  show "\<not> tag_absent (render_tag (TagOut m))"
    unfolding tag_absent_def lo by simp
qed


section \<open>The starter classifier\<close>

text \<open>
  Claim C1. The starter classifier is a total function of the minutes played and the
  substitution tag: with fewer than 90 minutes and an "out" component in the tag the
  player is a starter; with fewer than 90 minutes and an "in" component but no "out"
  component, a non-starter; with 90 minutes or more and no tag, a starter; in every other
  case a non-starter. It always answers one of the two.
\<close>

theorem assign_starter_flag_cases:
  fixes pd :: "'f pdict"
  shows
  "(minutes pd < 90 \<and> has_out (sub_in_out pd) \<longrightarrow> assign_starter_flag pd = ''yes'') \<and>
   (minutes pd < 90 \<and> has_in (sub_in_out pd) \<and> \<not> has_out (sub_in_out pd)
      \<longrightarrow> assign_starter_flag pd = ''no'') \<and>
   (minutes pd \<ge> 90 \<and> tag_absent (sub_in_out pd) \<longrightarrow> assign_starter_flag pd = ''yes'') \<and>
   (\<not> (minutes pd < 90 \<and> has_out (sub_in_out pd)) \<and>
    \<not> (minutes pd < 90 \<and> has_in (sub_in_out pd) \<and> \<not> has_out (sub_in_out pd)) \<and>
    \<not> (minutes pd \<ge> 90 \<and> tag_absent (sub_in_out pd))
      \<longrightarrow> assign_starter_flag pd = ''no'') \<and>
   (assign_starter_flag pd = ''yes'' \<or> assign_starter_flag pd = ''no'')"
  by (simp add: assign_starter_flag_def has_out_def has_in_def tag_absent_def Let_def)

theorem assign_starter_flag_cases_witness:
  "minutes \<lparr>player_id = ''p1'', player = ''A'', position = ''FW'', minutes = 67,
       starter = ''no'', sub_in_out = render_tag (TagOut ''72''),
       stat = (\<lambda>_. PyInt 0 :: unit pynum)\<rparr> < 90 \<and>
   has_out (render_tag (TagOut ''72'')) \<and>
   assign_starter_flag \<lparr>player_id = ''p1'', player = ''A'', position = ''FW'', minutes = 67,
       starter = ''no'', sub_in_out = render_tag (TagOut ''72''),
       stat = (\<lambda>_. PyInt 0 :: unit pynum)\<rparr> = ''yes''"
  using assign_starter_flag_cases [of "\<lparr>player_id = ''p1'', player = ''A'', position = ''FW'',
       minutes = 67, starter = ''no'', sub_in_out = render_tag (TagOut ''72''),
       stat = (\<lambda>_. PyInt 0 :: unit pynum)\<rparr>"]
  by (simp add: has_out_def lower_def lower_char_def prime_mark_def)

text \<open>
  On the three shapes of tag the substitution processor writes, with a minute of digits:
  a player without a tag is a starter exactly from 90 minutes on, a player who came in
  never, and a player who went off exactly below 90 minutes.
\<close>

lemma starter_flag_of_written_tags:
  fixes pd :: "'f pdict"
  assumes "\<forall>c \<in> set m. is_digit c"
  shows "sub_in_out pd = render_tag NoTag \<Longrightarrow>
           assign_starter_flag pd = (if minutes pd \<ge> 90 then ''yes'' else ''no'')"
    and "sub_in_out pd = render_tag (TagIn m) \<Longrightarrow> assign_starter_flag pd = ''no''"
    and "sub_in_out pd = render_tag (TagOut m) \<Longrightarrow>
           assign_starter_flag pd = (if minutes pd < 90 then ''yes'' else ''no'')"
proof -
  note tc = tag_components[OF assms]
  have unfold: "assign_starter_flag pd =
      (if minutes pd < 90 \<and> has_out (sub_in_out pd) then ''yes''
       else if minutes pd < 90 \<and> has_in (sub_in_out pd) \<and> \<not> has_out (sub_in_out pd) then ''no''
       else if minutes pd \<ge> 90 \<and> tag_absent (sub_in_out pd) then ''yes'' else ''no'')"
    by (simp add: assign_starter_flag_def has_out_def has_in_def tag_absent_def Let_def)
  show "sub_in_out pd = render_tag NoTag \<Longrightarrow>
           assign_starter_flag pd = (if minutes pd \<ge> 90 then ''yes'' else ''no'')"
    unfolding unfold using tc(1-3) by simp
  show "sub_in_out pd = render_tag (TagIn m) \<Longrightarrow> assign_starter_flag pd = ''no''"
    unfolding unfold using tc(4-6) by simp
  show "sub_in_out pd = render_tag (TagOut m) \<Longrightarrow>
           assign_starter_flag pd = (if minutes pd < 90 then ''yes'' else ''no'')"
    unfolding unfold using tc(7-9) by simp
qed

section \<open>The halting pattern\<close>

lemma split_nonempty: "split sep s \<noteq> []"
  by (induction s) (auto split: list.splits)

lemma split_no_sep: "sep \<notin> set a \<Longrightarrow> split sep a = [a]"
  by (induction a) auto

lemma split_append: "split sep (xs @ sep # ys) = split sep xs @ split sep ys"
  by (induction xs) (auto split: list.splits simp: split_nonempty)

lemma join_split: "join sep (split sep s) = s"
proof (induction s)
  case Nil
  show ?case by simp
next
  case (Cons c cs)
  obtain w ws where sp: "split sep cs = w # ws"
    using split_nonempty[of sep cs] by (cases "split sep cs") auto
  show ?case
  proof (cases "c = sep")
    case True
    then show ?thesis using Cons sp by simp
  next
    case False
    then show ?thesis using Cons sp by (cases ws) auto
  qed
qed

lemma join_append:
  "xs \<noteq> [] \<Longrightarrow> ys \<noteq> [] \<Longrightarrow> join sep (xs @ ys) = join sep xs @ sep # join sep ys"
proof (induction xs rule: join.induct[where ?a0.0 = sep, case_names Nil One More])
  case Nil
  then show ?case by simp
next
  case (One w)
  then show ?case by (cases ys) auto
next
  case (More w v ws)
  then show ?case by simp
qed

lemma match_here_replicate:
  "match_here (replicate n AlNum @ ks) s \<longleftrightarrow>
     (\<exists>a r. s = a @ r \<and> length a = n \<and> list_all is_alnum a \<and> match_here ks r)"
proof (induction n arbitrary: s)
  case 0
  show ?case by simp
next
  case (Suc n)
  show ?case
  proof (cases s)
    case Nil
    then show ?thesis by simp
  next
    case (Cons c cs)
    show ?thesis
    proof
      assume "match_here (replicate (Suc n) AlNum @ ks) s"
      then have c: "is_alnum c" and m: "match_here (replicate n AlNum @ ks) cs"
        using Cons by auto
      from m obtain a r where "cs = a @ r" "length a = n" "list_all is_alnum a" "match_here ks r"
        using Suc.IH by blast
      then have "s = (c # a) @ r \<and> length (c # a) = Suc n \<and> list_all is_alnum (c # a) \<and> match_here ks r"
        using Cons c by simp
      then show "\<exists>a r. s = a @ r \<and> length a = Suc n \<and> list_all is_alnum a \<and> match_here ks r"
        by blast
    next
      assume "\<exists>a r. s = a @ r \<and> length a = Suc n \<and> list_all is_alnum a \<and> match_here ks r"
      then obtain a r where ar: "s = a @ r" "length a = Suc n" "list_all is_alnum a" "match_here ks r"
        by blast
      then obtain d a' where a: "a = d # a'" by (cases a) auto
      then have "cs = a' @ r" "length a' = n" "list_all is_alnum a'" "c = d" "is_alnum d"
        using ar Cons by auto
      then have "match_here (replicate n AlNum @ ks) cs" using Suc.IH ar(4) by blast
      then show "match_here (replicate (Suc n) AlNum @ ks) s"
        using Cons \<open>c = d\<close> \<open>is_alnum d\<close> by simp
    qed
  qed
qed

lemma match_here_lit:
  "match_here (Lit d # ks) s \<longleftrightarrow> (\<exists>r. s = d # r \<and> match_here ks r)"
  by (cases s) auto

lemma match_here_seg:
  "match_here (replicate 8 AlNum @ Lit d # ks) s \<longleftrightarrow>
     (\<exists>a r. s = a @ d # r \<and> seg8 a \<and> match_here ks r)"
proof
  assume "match_here (replicate 8 AlNum @ Lit d # ks) s"
  then obtain a r0 where a: "s = a @ r0" "length a = 8" "list_all is_alnum a"
      and m: "match_here (Lit d # ks) r0"
    unfolding match_here_replicate by blast
  from m obtain r where "r0 = d # r" "match_here ks r"
    unfolding match_here_lit by blast
  then have "s = a @ d # r \<and> seg8 a \<and> match_here ks r"
    using a by (simp add: seg8_def)
  then show "\<exists>a r. s = a @ d # r \<and> seg8 a \<and> match_here ks r" by blast
next
  assume "\<exists>a r. s = a @ d # r \<and> seg8 a \<and> match_here ks r"
  then obtain a r where a: "s = a @ d # r" "seg8 a" "match_here ks r" by blast
  have "match_here (Lit d # ks) (d # r)" using a(3) by simp
  then have "\<exists>a' r'. s = a' @ r' \<and> length a' = 8 \<and> list_all is_alnum a' \<and> match_here (Lit d # ks) r'"
    using a(1,2) unfolding seg8_def by blast
  then show "match_here (replicate 8 AlNum @ Lit d # ks) s"
    unfolding match_here_replicate .
qed

lemma match_here_bad:
  "match_here BAD_URL_REGEX s \<longleftrightarrow>
     (\<exists>a b r. s = CHR ''/'' # a @ CHR ''/'' # b @ CHR ''/'' # r \<and> seg8 a \<and> seg8 b)"
proof -
  have "match_here BAD_URL_REGEX s \<longleftrightarrow>
      (\<exists>r1. s = CHR ''/'' # r1 \<and>
        (\<exists>a r2. r1 = a @ CHR ''/'' # r2 \<and> seg8 a \<and>
          (\<exists>b r. r2 = b @ CHR ''/'' # r \<and> seg8 b \<and> match_here [] r)))"
    unfolding BAD_URL_REGEX_def
    by (simp only: match_here_lit match_here_seg append_Nil append_Cons)
  also have "\<dots> \<longleftrightarrow> (\<exists>a b r. s = CHR ''/'' # a @ CHR ''/'' # b @ CHR ''/'' # r \<and> seg8 a \<and> seg8 b)"
    by (simp only: match_here.simps) blast
  finally show ?thesis .
qed

lemma re_search_iff:
  "re_search pat s \<longleftrightarrow> (\<exists>pre r. s = pre @ r \<and> match_here pat r)"
proof (induction s)
  case Nil
  show ?case by simp
next
  case (Cons c cs)
  show ?case
  proof
    assume "re_search pat (c # cs)"
    then consider "match_here pat (c # cs)" | "re_search pat cs" by auto
    then show "\<exists>pre r. c # cs = pre @ r \<and> match_here pat r"
    proof cases
      case 1
      then have "c # cs = [] @ (c # cs) \<and> match_here pat (c # cs)" by simp
      then show ?thesis by blast
    next
      case 2
      then obtain pre r where "cs = pre @ r" "match_here pat r" using Cons.IH by blast
      then have "c # cs = (c # pre) @ r \<and> match_here pat r" by simp
      then show ?thesis by blast
    qed
  next
    assume "\<exists>pre r. c # cs = pre @ r \<and> match_here pat r"
    then obtain pre r where e: "c # cs = pre @ r" "match_here pat r" by blast
    show "re_search pat (c # cs)"
    proof (cases pre)
      case Nil
      then have "match_here pat (c # cs)" using e by simp
      then show ?thesis by simp
    next
      case (Cons d pre')
      then have "cs = pre' @ r" using e by simp
      then have "re_search pat cs" using Cons.IH e(2) by blast
      then show ?thesis by simp
    qed
  qed
qed

lemma space_not_alnum: "is_space c \<Longrightarrow> \<not> is_alnum c"
  unfolding is_space_def is_alnum_def by arith

lemma space_not_slash: "is_space c \<Longrightarrow> c \<noteq> CHR ''/''"
  unfolding is_space_def by auto

lemma space_not_in_bad: "is_space w \<Longrightarrow> k \<in> set BAD_URL_REGEX \<Longrightarrow> \<not> in_class k w"
  unfolding BAD_URL_REGEX_def by (auto simp: space_not_alnum space_not_slash)

lemma match_here_snoc:
  "\<forall>k \<in> set pat. \<not> in_class k w \<Longrightarrow> match_here pat (s @ [w]) = match_here pat s"
proof (induction pat s rule: match_here.induct)
  case (1 s)
  show ?case by simp
next
  case (2 k ks)
  then show ?case by simp
next
  case (3 k ks c cs)
  then show ?case by simp
qed

lemma re_search_snoc:
  "\<forall>k \<in> set pat. \<not> in_class k w \<Longrightarrow> re_search pat (s @ [w]) = re_search pat s"
proof (induction s)
  case Nil
  then show ?case using match_here_snoc[of pat w "[]"] by simp
next
  case (Cons c cs)
  then show ?case using match_here_snoc[of pat w "c # cs"] by simp
qed

lemma re_search_bad_trailing:
  "\<forall>w \<in> set ws. is_space w \<Longrightarrow> re_search BAD_URL_REGEX (s @ ws) = re_search BAD_URL_REGEX s"
proof (induction ws rule: rev_induct)
  case Nil
  show ?case by simp
next
  case (snoc w ws)
  have "re_search BAD_URL_REGEX ((s @ ws) @ [w]) = re_search BAD_URL_REGEX (s @ ws)"
    using snoc.prems by (intro re_search_snoc) (auto simp: space_not_in_bad)
  then show ?case using snoc by simp
qed

lemma re_search_bad_leading:
  "re_search BAD_URL_REGEX (dropWhile is_space s) = re_search BAD_URL_REGEX s"
proof (induction s)
  case Nil
  show ?case by simp
next
  case (Cons c cs)
  show ?case
  proof (cases "is_space c")
    case True
    then have "\<not> match_here BAD_URL_REGEX (c # cs)"
      unfolding BAD_URL_REGEX_def by (simp add: space_not_slash)
    then show ?thesis using True Cons by simp
  next
    case False
    then show ?thesis by simp
  qed
qed

lemma re_search_bad_strip: "re_search BAD_URL_REGEX (strip s) = re_search BAD_URL_REGEX s"
proof -
  let ?t = "dropWhile is_space s"
  have "?t = rev (dropWhile is_space (rev ?t)) @ rev (takeWhile is_space (rev ?t))"
    by (metis rev_append rev_rev_ident takeWhile_dropWhile_id)
  moreover have "\<forall>w \<in> set (rev (takeWhile is_space (rev ?t))). is_space w"
    by (auto dest: set_takeWhileD)
  ultimately have "re_search BAD_URL_REGEX ?t = re_search BAD_URL_REGEX (strip s)"
    unfolding strip_def using re_search_bad_trailing by metis
  then show ?thesis using re_search_bad_leading by simp
qed

lemma is_bad_url_search: "is_bad_url url = re_search BAD_URL_REGEX url"
proof (cases "url = []")
  case True
  then show ?thesis by (simp add: is_bad_url_def BAD_URL_REGEX_def)
next
  case False
  then show ?thesis by (simp add: is_bad_url_def re_search_bad_strip)
qed

lemma is_bad_url_iff:
  "is_bad_url url \<longleftrightarrow>
     (\<exists>pre a b post. url = pre @ CHR ''/'' # a @ CHR ''/'' # b @ CHR ''/'' # post \<and> seg8 a \<and> seg8 b)"
  unfolding is_bad_url_search re_search_iff match_here_bad by blast

lemma seg8_no_slash: "seg8 a \<Longrightarrow> CHR ''/'' \<notin> set a"
proof
  assume "seg8 a" "CHR ''/'' \<in> set a"
  then have "is_alnum (CHR ''/'')" by (auto simp: seg8_def list_all_iff)
  then show False by (simp add: is_alnum_def)
qed

lemma two_consecutive_seg8_iff:
  "two_consecutive_seg8 ws \<longleftrightarrow> (\<exists>xs a b ys. ws = xs @ a # b # ys \<and> seg8 a \<and> seg8 b)"
proof (induction ws rule: two_consecutive_seg8.induct)
  case (1 a b ws)
  show ?case
  proof
    assume "two_consecutive_seg8 (a # b # ws)"
    then consider "seg8 a \<and> seg8 b" | "two_consecutive_seg8 (b # ws)" by auto
    then show "\<exists>xs a' b' ys. a # b # ws = xs @ a' # b' # ys \<and> seg8 a' \<and> seg8 b'"
    proof cases
      case 1
      then have "a # b # ws = [] @ a # b # ws \<and> seg8 a \<and> seg8 b" by simp
      then show ?thesis by blast
    next
      case 2
      then obtain xs a' b' ys where "b # ws = xs @ a' # b' # ys" "seg8 a'" "seg8 b'"
        using "1.IH" by blast
      then have "a # b # ws = (a # xs) @ a' # b' # ys \<and> seg8 a' \<and> seg8 b'" by simp
      then show ?thesis by blast
    qed
  next
    assume "\<exists>xs a' b' ys. a # b # ws = xs @ a' # b' # ys \<and> seg8 a' \<and> seg8 b'"
    then obtain xs a' b' ys where e: "a # b # ws = xs @ a' # b' # ys" "seg8 a'" "seg8 b'" by blast
    show "two_consecutive_seg8 (a # b # ws)"
    proof (cases xs)
      case Nil
      then show ?thesis using e by simp
    next
      case (Cons x xs')
      then have "b # ws = xs' @ a' # b' # ys" using e by simp
      then have "two_consecutive_seg8 (b # ws)" using "1.IH" e(2,3) by blast
      then show ?thesis by simp
    qed
  qed
qed (auto simp: Cons_eq_append_conv)

text \<open>
  Claim C8, as amended. The halting check is a predicate of the address text alone: it
  holds exactly when the address, cut at its slashes, has two neighbouring segments of
  eight alphanumeric characters each, neither of them the first or the last piece; so the
  second segment, too, is followed by a slash. One such segment alone, or neighbours of
  other lengths, do not make an address halting.
\<close>

theorem is_bad_url_segments:
  "is_bad_url url = two_consecutive_seg8 (butlast (tl (split (CHR ''/'') url)))"
proof
  assume "is_bad_url url"
  then obtain pre a b post where
    u: "url = pre @ CHR ''/'' # a @ CHR ''/'' # b @ CHR ''/'' # post" and ab: "seg8 a" "seg8 b"
    unfolding is_bad_url_iff by blast
  have "url = pre @ CHR ''/'' # (a @ CHR ''/'' # (b @ CHR ''/'' # post))" using u by simp
  then have sp: "split (CHR ''/'') url =
      split (CHR ''/'') pre @ [a] @ [b] @ split (CHR ''/'') post"
    using ab by (simp only: split_append split_no_sep[OF seg8_no_slash])
  obtain p ps where p: "split (CHR ''/'') pre = p # ps"
    using split_nonempty[of "CHR ''/''" pre] by (cases "split (CHR ''/'') pre") auto
  obtain q qs where q: "split (CHR ''/'') post = q # qs"
    using split_nonempty[of "CHR ''/''" post] by (cases "split (CHR ''/'') post") auto
  have "butlast (tl (split (CHR ''/'') url)) = ps @ a # b # butlast (q # qs)"
    using sp p q by (simp add: butlast_append)
  then show "two_consecutive_seg8 (butlast (tl (split (CHR ''/'') url)))"
    using ab unfolding two_consecutive_seg8_iff by blast
next
  let ?segs = "split (CHR ''/'') url"
  assume "two_consecutive_seg8 (butlast (tl ?segs))"
  then obtain xs a b ys where
    w: "butlast (tl ?segs) = xs @ a # b # ys" and ab: "seg8 a" "seg8 b"
    unfolding two_consecutive_seg8_iff by blast
  obtain s0 rest where s0: "?segs = s0 # rest"
    using split_nonempty[of "CHR ''/''" url] by (cases ?segs) auto
  have rest: "rest \<noteq> []" using w s0 by auto
  then have "rest = butlast rest @ [last rest]" by simp
  then have segs: "?segs = (s0 # xs) @ a # b # (ys @ [last rest])"
    using w s0 by simp
  have "url = join (CHR ''/'') ?segs" by (simp add: join_split)
  also have "\<dots> = join (CHR ''/'') (s0 # xs) @ CHR ''/'' # join (CHR ''/'') (a # b # (ys @ [last rest]))"
    unfolding segs by (rule join_append) simp_all
  also have "join (CHR ''/'') (a # b # (ys @ [last rest])) =
      a @ CHR ''/'' # b @ CHR ''/'' # join (CHR ''/'') (ys @ [last rest])"
    by (cases ys) simp_all
  finally have "url = join (CHR ''/'') (s0 # xs) @ CHR ''/'' # a @ CHR ''/'' # b @ CHR ''/'' #
      join (CHR ''/'') (ys @ [last rest])" .
  then show "is_bad_url url" unfolding is_bad_url_iff using ab by blast
qed

text \<open>
  The claim as written fails where the second segment ends the address: the pattern asks
  for a slash after it.
\<close>

theorem is_bad_url_last_segment_counterexample:
  "halting_by_segments ''https://fbref.com/en/matches/AbCdEfGh/IjKlMnOp'' \<and>
   \<not> is_bad_url ''https://fbref.com/en/matches/AbCdEfGh/IjKlMnOp''"
  by code_simp

text \<open>
  The examples of the specification: two segments of eight followed by more are halting;
  a single segment of eight, or neighbours of eight and seven characters, are not.
\<close>

lemma is_bad_url_examples:
  "is_bad_url ''https://fbref.com/en/stathead/matchup/teams/AbCdEfGh/IjKlMnOp/History''"
  "\<not> is_bad_url ''https://fbref.com/en/matches/67ed3ba2/Brentford-Arsenal-August-13-2021''"
  "\<not> is_bad_url ''https://fbref.com/en/matchup/AbCdEfGh/IjKlMnO/History''"
  by code_simp+

section \<open>The group search\<close>

lemma takeWhile_until: "d \<notin> set g \<Longrightarrow> takeWhile (\<lambda>c. c \<noteq> d) (g @ d # post) = g"
  by (induction g) auto

lemma group_until_iff:
  "group_until d s = Some g \<longleftrightarrow> g \<noteq> [] \<and> d \<notin> set g \<and> (\<exists>post. s = g @ d # post)"
proof
  assume a: "group_until d s = Some g"
  let ?t = "takeWhile (\<lambda>c. c \<noteq> d) s"
  from a have g: "g = ?t" and ne: "?t \<noteq> []" and sw: "startswith (drop (length ?t) s) [d]"
    by (auto simp: group_until_def Let_def split: if_splits)
  from sw obtain post where "drop (length ?t) s = d # post"
    by (auto simp: startswith_iff)
  then have "s = ?t @ d # post"
    by (metis append_take_drop_id takeWhile_eq_take)
  then have s_eq: "s = g @ d # post" unfolding g .
  have "d \<notin> set ?t" by (auto dest: set_takeWhileD)
  then have nd: "d \<notin> set g" unfolding g .
  have gne: "g \<noteq> []" using ne unfolding g .
  show "g \<noteq> [] \<and> d \<notin> set g \<and> (\<exists>post. s = g @ d # post)"
    using s_eq nd gne by blast
next
  assume "g \<noteq> [] \<and> d \<notin> set g \<and> (\<exists>post. s = g @ d # post)"
  then obtain post where g: "g \<noteq> []" "d \<notin> set g" and s: "s = g @ d # post" by blast
  have "takeWhile (\<lambda>c. c \<noteq> d) s = g"
    unfolding s using g(2) by (rule takeWhile_until)
  then show "group_until d s = Some g"
    using g(1) s by (simp add: group_until_def)
qed

lemma group_until_None_iff:
  "group_until d s = None \<longleftrightarrow> \<not> (\<exists>g post. g \<noteq> [] \<and> d \<notin> set g \<and> s = g @ d # post)"
proof -
  have "group_until d s = None \<longleftrightarrow> \<not> (\<exists>g. group_until d s = Some g)" by auto
  then show ?thesis unfolding group_until_iff by blast
qed

lemma re_search_group_Some:
  "re_search_group lit d s = Some g \<Longrightarrow>
     \<exists>pre post. s = pre @ lit @ g @ d # post \<and> g \<noteq> [] \<and> d \<notin> set g"
proof (induction s)
  case Nil
  then show ?case by simp
next
  case (Cons c cs)
  show ?case
  proof (cases "startswith (c # cs) lit \<and> group_until d (drop (length lit) (c # cs)) = Some g")
    case True
    then obtain r where r: "c # cs = lit @ r" by (auto simp: startswith_iff)
    then have "group_until d r = Some g" using True by simp
    then obtain post where "g \<noteq> []" "d \<notin> set g" "r = g @ d # post"
      unfolding group_until_iff by blast
    then have "c # cs = [] @ lit @ g @ d # post \<and> g \<noteq> [] \<and> d \<notin> set g" using r by simp
    then show ?thesis by blast
  next
    case False
    then have "re_search_group lit d cs = Some g"
      using Cons.prems by (auto split: if_splits option.splits)
    then obtain pre post where "cs = pre @ lit @ g @ d # post" "g \<noteq> []" "d \<notin> set g"
      using Cons.IH by blast
    then have "c # cs = (c # pre) @ lit @ g @ d # post \<and> g \<noteq> [] \<and> d \<notin> set g" by simp
    then show ?thesis by blast
  qed
qed

lemma re_search_group_None:
  "re_search_group lit d s = None \<longleftrightarrow>
     \<not> (\<exists>pre g post. s = pre @ lit @ g @ d # post \<and> g \<noteq> [] \<and> d \<notin> set g)"
proof (induction s)
  case Nil
  show ?case by simp
next
  case (Cons c cs)
  have here: "(startswith (c # cs) lit \<and> group_until d (drop (length lit) (c # cs)) \<noteq> None) \<longleftrightarrow>
      (\<exists>g post. c # cs = lit @ g @ d # post \<and> g \<noteq> [] \<and> d \<notin> set g)"
  proof
    assume a: "startswith (c # cs) lit \<and> group_until d (drop (length lit) (c # cs)) \<noteq> None"
    then obtain r where r: "c # cs = lit @ r" by (auto simp: startswith_iff)
    then obtain g where "group_until d r = Some g" using a by auto
    then show "\<exists>g post. c # cs = lit @ g @ d # post \<and> g \<noteq> [] \<and> d \<notin> set g"
      unfolding group_until_iff using r by auto
  next
    assume "\<exists>g post. c # cs = lit @ g @ d # post \<and> g \<noteq> [] \<and> d \<notin> set g"
    then obtain g post where e: "c # cs = lit @ g @ d # post" "g \<noteq> []" "d \<notin> set g" by blast
    then have "group_until d (g @ d # post) = Some g" unfolding group_until_iff by blast
    moreover have "startswith (c # cs) lit" unfolding startswith_iff using e(1) by blast
    moreover have "drop (length lit) (c # cs) = g @ d # post" unfolding e(1) by simp
    ultimately show "startswith (c # cs) lit \<and> group_until d (drop (length lit) (c # cs)) \<noteq> None"
      by simp
  qed
  have step: "re_search_group lit d (c # cs) = None \<longleftrightarrow>
      \<not> (startswith (c # cs) lit \<and> group_until d (drop (length lit) (c # cs)) \<noteq> None) \<and>
      re_search_group lit d cs = None"
    by (auto split: option.splits)
  have split_pre: "(\<exists>pre g post. c # cs = pre @ lit @ g @ d # post \<and> g \<noteq> [] \<and> d \<notin> set g) \<longleftrightarrow>
      (\<exists>g post. c # cs = lit @ g @ d # post \<and> g \<noteq> [] \<and> d \<notin> set g) \<or>
      (\<exists>pre g post. cs = pre @ lit @ g @ d # post \<and> g \<noteq> [] \<and> d \<notin> set g)"
  proof
    assume "\<exists>pre g post. c # cs = pre @ lit @ g @ d # post \<and> g \<noteq> [] \<and> d \<notin> set g"
    then obtain pre g post where e: "c # cs = pre @ lit @ g @ d # post" "g \<noteq> []" "d \<notin> set g"
      by blast
    show "(\<exists>g post. c # cs = lit @ g @ d # post \<and> g \<noteq> [] \<and> d \<notin> set g) \<or>
      (\<exists>pre g post. cs = pre @ lit @ g @ d # post \<and> g \<noteq> [] \<and> d \<notin> set g)"
    proof (cases pre)
      case Nil
      then show ?thesis using e by auto
    next
      case (Cons x pre')
      then have "cs = pre' @ lit @ g @ d # post" using e by simp
      then show ?thesis using e(2,3) by blast
    qed
  next
    assume "(\<exists>g post. c # cs = lit @ g @ d # post \<and> g \<noteq> [] \<and> d \<notin> set g) \<or>
      (\<exists>pre g post. cs = pre @ lit @ g @ d # post \<and> g \<noteq> [] \<and> d \<notin> set g)"
    then show "\<exists>pre g post. c # cs = pre @ lit @ g @ d # post \<and> g \<noteq> [] \<and> d \<notin> set g"
    proof
      assume "\<exists>g post. c # cs = lit @ g @ d # post \<and> g \<noteq> [] \<and> d \<notin> set g"
      then obtain g post where "c # cs = [] @ lit @ g @ d # post \<and> g \<noteq> [] \<and> d \<notin> set g" by auto
      then show ?thesis by blast
    next
      assume "\<exists>pre g post. cs = pre @ lit @ g @ d # post \<and> g \<noteq> [] \<and> d \<notin> set g"
      then obtain pre g post where "c # cs = (c # pre) @ lit @ g @ d # post \<and> g \<noteq> [] \<and> d \<notin> set g"
        by auto
      then show ?thesis by blast
    qed
  qed
  show ?case unfolding step here split_pre using Cons.IH by blast
qed

section \<open>Team identity fallback\<close>

text \<open>
  Claim C5. Complementary fallback: when exactly one side has a code and the codes found
  in the document, less that code, leave exactly one element, this element becomes the code
  of the other side; when they leave none or several, the other side keeps the sentinel and
  a warning that the fallback is not possible is emitted.
\<close>

theorem fallback_complementary:
  "(home_team_id \<noteq> sentinel \<and> away_team_id = sentinel \<and>
      set (map snd found_team_map) - {home_team_id} = {x}
    \<longrightarrow> fst (fallback home_team_id away_team_id found_team_map) = home_team_id \<and>
        fst (snd (fallback home_team_id away_team_id found_team_map)) = x) \<and>
   (away_team_id \<noteq> sentinel \<and> home_team_id = sentinel \<and>
      set (map snd found_team_map) - {away_team_id} = {x}
    \<longrightarrow> fst (fallback home_team_id away_team_id found_team_map) = x \<and>
        fst (snd (fallback home_team_id away_team_id found_team_map)) = away_team_id) \<and>
   (home_team_id \<noteq> sentinel \<and> away_team_id = sentinel \<and>
      card (set (map snd found_team_map) - {home_team_id}) \<noteq> 1
    \<longrightarrow> fst (fallback home_team_id away_team_id found_team_map) = home_team_id \<and>
        fst (snd (fallback home_team_id away_team_id found_team_map)) = sentinel \<and>
        FallbackNotPossibleAway (set (map snd found_team_map) - {home_team_id})
          \<in> set (snd (snd (fallback home_team_id away_team_id found_team_map)))) \<and>
   (away_team_id \<noteq> sentinel \<and> home_team_id = sentinel \<and>
      card (set (map snd found_team_map) - {away_team_id}) \<noteq> 1
    \<longrightarrow> fst (fallback home_team_id away_team_id found_team_map) = sentinel \<and>
        fst (snd (fallback home_team_id away_team_id found_team_map)) = away_team_id \<and>
        FallbackNotPossibleHome (set (map snd found_team_map) - {away_team_id})
          \<in> set (snd (snd (fallback home_team_id away_team_id found_team_map))))"
  by (simp add: fallback_def Let_def)

theorem fallback_complementary_witness:
  "''A'' \<noteq> sentinel \<and>
   set (map snd [(''Home'', ''A''), (''Away FC'', ''B'')]) - {''A''} = {''B''} \<and>
   fst (snd (fallback ''A'' sentinel [(''Home'', ''A''), (''Away FC'', ''B'')])) = ''B'' \<and>
   card (set (map snd [(''Home'', ''A''), (''Away FC'', ''B''), (''Other'', ''C'')]) - {''A''}) \<noteq> 1 \<and>
   fst (snd (fallback ''A'' sentinel [(''Home'', ''A''), (''Away FC'', ''B''), (''Other'', ''C'')]))
     = sentinel \<and>
   FallbackNotPossibleAway {''B'', ''C''}
     \<in> set (snd (snd (fallback ''A'' sentinel
           [(''Home'', ''A''), (''Away FC'', ''B''), (''Other'', ''C'')])))"
proof -
  have h1: "''A'' \<noteq> sentinel" by (simp add: sentinel_def)
  have h2: "set (map snd [(''Home'', ''A''), (''Away FC'', ''B'')]) - {''A''} = {''B''}"
    by auto
  have h3: "card (set (map snd [(''Home'', ''A''), (''Away FC'', ''B''), (''Other'', ''C'')]) - {''A''}) \<noteq> 1"
    by simp
  have h4: "set (map snd [(''Home'', ''A''), (''Away FC'', ''B''), (''Other'', ''C'')]) - {''A''}
      = {''B'', ''C''}" by auto
  show ?thesis
    using h1 h2 h3
      fallback_complementary [of "''A''" sentinel "[(''Home'', ''A''), (''Away FC'', ''B'')]" "''B''"]
      fallback_complementary [of "''A''" sentinel
        "[(''Home'', ''A''), (''Away FC'', ''B''), (''Other'', ''C'')]" "''B''"]
    unfolding h4 by blast
qed

section \<open>Match metadata\<close>

lemma formation_token_cases:
  "(formation_token t = ''Unknown'' \<and>
      \<not> (\<exists>pre g post. t = pre @ ''('' @ g @ CHR '')'' # post \<and> g \<noteq> [] \<and> CHR '')'' \<notin> set g)) \<or>
   (\<exists>pre post. t = pre @ ''('' @ formation_token t @ CHR '')'' # post \<and>
      formation_token t \<noteq> [] \<and> CHR '')'' \<notin> set (formation_token t))"
proof (cases "re_search_group ''('' (CHR '')'') t")
  case None
  then show ?thesis
    unfolding formation_token_def re_search_group_None[symmetric] by simp
next
  case (Some g)
  then have "formation_token t = g" by (simp add: formation_token_def)
  then show ?thesis using re_search_group_Some[OF Some] by simp
qed

text \<open>
  Claim C9, as amended. The final score is the two score texts joined by " : ", and
  "0 : 0" unless there are exactly two score elements. Each side's possession is "0%" when
  the possession row is missing or has not two cells, and otherwise the text of the side's
  own cell, or "0%" for a cell without one. The formations are read only when both line-up
  blocks and both headers are there: each is then the first parenthesised token of its
  header, or "Unknown" if the header has none; in every other case both are "Unknown".
\<close>

theorem metadata_defaults:
  "(length (score_divs sb) = 2
      \<longrightarrow> final_score_of sb = score_divs sb ! 0 @ '' : '' @ score_divs sb ! 1) \<and>
   (length (score_divs sb) \<noteq> 2 \<longrightarrow> final_score_of sb = ''0 : 0'') \<and>
   (possession_tds d = None \<longrightarrow> possession_of d = (''0%'', ''0%'')) \<and>
   (possession_tds d = Some tds \<and> length tds \<noteq> 2 \<longrightarrow> possession_of d = (''0%'', ''0%'')) \<and>
   (possession_tds d = Some [s_home, s_away]
      \<longrightarrow> possession_of d =
            ((case s_home of Some s \<Rightarrow> s | None \<Rightarrow> ''0%''),
             (case s_away of Some s \<Rightarrow> s | None \<Rightarrow> ''0%''))) \<and>
   (home_lineup_div d = Some (Some home_text) \<and> away_lineup_div d = Some (Some away_text)
      \<longrightarrow> formations_of d = (formation_token home_text, formation_token away_text)) \<and>
   (\<not> (\<exists>ht at. home_lineup_div d = Some (Some ht) \<and> away_lineup_div d = Some (Some at))
      \<longrightarrow> formations_of d = (''Unknown'', ''Unknown'')) \<and>
   ((formation_token t = ''Unknown'' \<and>
      \<not> (\<exists>pre g post. t = pre @ ''('' @ g @ CHR '')'' # post \<and> g \<noteq> [] \<and> CHR '')'' \<notin> set g)) \<or>
    (\<exists>pre post. t = pre @ ''('' @ formation_token t @ CHR '')'' # post \<and>
      formation_token t \<noteq> [] \<and> CHR '')'' \<notin> set (formation_token t)))"
proof -
  have score2: "length (score_divs sb) = 2
      \<longrightarrow> final_score_of sb = score_divs sb ! 0 @ '' : '' @ score_divs sb ! 1"
    by (simp add: final_score_of_def Let_def)
  have score0: "length (score_divs sb) \<noteq> 2 \<longrightarrow> final_score_of sb = ''0 : 0''"
    by (simp add: final_score_of_def Let_def)
  have p0: "possession_tds d = None \<longrightarrow> possession_of d = (''0%'', ''0%'')"
    by (simp add: possession_of_def)
  have p1: "possession_tds d = Some tds \<and> length tds \<noteq> 2 \<longrightarrow> possession_of d = (''0%'', ''0%'')"
    by (simp add: possession_of_def)
  have p2: "possession_tds d = Some [s_home, s_away]
      \<longrightarrow> possession_of d =
            ((case s_home of Some s \<Rightarrow> s | None \<Rightarrow> ''0%''),
             (case s_away of Some s \<Rightarrow> s | None \<Rightarrow> ''0%''))"
    by (simp add: possession_of_def)
  have f1: "home_lineup_div d = Some (Some home_text) \<and> away_lineup_div d = Some (Some away_text)
      \<longrightarrow> formations_of d = (formation_token home_text, formation_token away_text)"
    by (simp add: formations_of_def)
  have f0: "\<not> (\<exists>ht at. home_lineup_div d = Some (Some ht) \<and> away_lineup_div d = Some (Some at))
      \<longrightarrow> formations_of d = (''Unknown'', ''Unknown'')"
    by (auto simp: formations_of_def split: option.splits)
  show ?thesis using score2 score0 p0 p1 p2 f1 f0 formation_token_cases[of t] by blast
qed

theorem metadata_defaults_witness:
  "length (score_divs \<lparr>squad_links = [], score_divs = [''2'', ''1'']\<rparr>) = 2 \<and>
   final_score_of \<lparr>squad_links = [], score_divs = [''2'', ''1'']\<rparr> = ''2 : 1'' \<and>
   possession_tds example_home_lineup_only = None \<and> possession_of example_home_lineup_only = (''0%'', ''0%'') \<and>
   formations_of example_home_lineup_only = (''Unknown'', ''Unknown'')"
  using metadata_defaults [of "\<lparr>squad_links = [], score_divs = [''2'', ''1'']\<rparr>" example_home_lineup_only]
  by (simp add: example_home_lineup_only_def)

text \<open>
  The claim as written fails twice: the default score is "0 : 0", not "0:0"; and a header
  with a formation gives "Unknown" when the other side's line-up block is missing.
\<close>

theorem metadata_defaults_counterexample:
  "final_score_of \<lparr>squad_links = [], score_divs = []\<rparr> = ''0 : 0'' \<and>
   final_score_of \<lparr>squad_links = [], score_divs = []\<rparr> \<noteq> ''0:0'' \<and>
   home_lineup_div example_home_lineup_only = Some (Some ''Arsenal (4-3-3)'') \<and>
   formation_token ''Arsenal (4-3-3)'' = ''4-3-3'' \<and>
   fst (formations_of example_home_lineup_only) = ''Unknown''"
  by (simp add: final_score_of_def example_home_lineup_only_def formation_token_def group_until_def formations_of_def Let_def)

section \<open>Substitution events\<close>

lemma map_fst_map_entry: "map fst (AList.map_entry k f al) = map fst al"
  by (induction al) auto

lemma set_tag_keys: "map fst (set_tag pid_opt text ps) = map fst ps"
  by (cases pid_opt) (simp_all add: set_tag_def map_fst_map_entry)

lemma set_tag_lookup:
  "map_of (set_tag pid_opt text ps) pid =
     (if pid_opt = Some pid then map_option (\<lambda>pd. pd\<lparr>sub_in_out := text\<rparr>) (map_of ps pid)
      else map_of ps pid)"
  by (cases pid_opt) (auto simp: set_tag_def map_of_map_entry split: option.splits)

lemma process_event_none:
  "substitution_of ev = None \<Longrightarrow> process_event ev st = st"
  by (cases st)
     (auto simp: substitution_of_def process_event_def Let_def
           split: option.splits if_splits prod.splits)

lemma process_event_home:
  "substitution_of ev = Some (Home, href_in, href_out) \<Longrightarrow>
   process_event ev (hp, ap, hs, as) =
     (tag_both (event_minute ev) href_in href_out hp, ap, hs + 1, as)"
  by (auto simp: substitution_of_def process_event_def tag_both_def Let_def
           split: option.splits if_splits prod.splits)

lemma process_event_away:
  "substitution_of ev = Some (Away, href_in, href_out) \<Longrightarrow>
   process_event ev (hp, ap, hs, as) =
     (hp, tag_both (event_minute ev) href_in href_out ap, hs, as + 1)"
  by (auto simp: substitution_of_def process_event_def tag_both_def Let_def
           split: option.splits if_splits prod.splits)

lemma tag_both_lookup:
  "map_of (tag_both minute href_in href_out ps) pid =
     (if re_search_group ''/en/players/'' (CHR ''/'') href_out = Some pid
      then map_option (\<lambda>pd. pd\<lparr>sub_in_out := render_tag (TagOut minute)\<rparr>) (map_of ps pid)
      else if re_search_group ''/en/players/'' (CHR ''/'') href_in = Some pid
      then map_option (\<lambda>pd. pd\<lparr>sub_in_out := render_tag (TagIn minute)\<rparr>) (map_of ps pid)
      else map_of ps pid)"
  by (cases "map_of ps pid") (simp_all add: tag_both_def set_tag_lookup)

lemma tag_both_keys: "map fst (tag_both minute href_in href_out ps) = map fst ps"
  by (simp add: tag_both_def set_tag_keys)

text \<open>
  Claim C6, as amended. An event counts as a substitution when its icon is the one of a
  player coming in, it carries the marker of a side, and its detail block has both the
  reference to the incoming and to the outgoing player. For every such event the counter
  of that side goes up by one, whether or not the two players are known; independently of
  each other, the incoming player is tagged "In | minute" if his code resolves and is in
  that side's dictionary, and the outgoing player "Out | minute" likewise (the later tag
  stands if both are the same player). No record is added or removed. Every other event
  leaves the dictionaries and the counters as they are.
\<close>

theorem process_event_effect:
  fixes hp ap :: "'f players"
  shows
  "(substitution_of ev = None \<longrightarrow> process_event ev (hp, ap, hs, as) = (hp, ap, hs, as)) \<and>
   (substitution_of ev = Some (Home, href_in, href_out) \<longrightarrow>
      process_event ev (hp, ap, hs, as) =
        (tag_both (event_minute ev) href_in href_out hp, ap, hs + 1, as)) \<and>
   (substitution_of ev = Some (Away, href_in, href_out) \<longrightarrow>
      process_event ev (hp, ap, hs, as) =
        (hp, tag_both (event_minute ev) href_in href_out ap, hs, as + 1)) \<and>
   map fst (tag_both minute href_in href_out hp) = map fst hp \<and>
   map_of (tag_both minute href_in href_out hp) pid =
     (if re_search_group ''/en/players/'' (CHR ''/'') href_out = Some pid
      then map_option (\<lambda>pd. pd\<lparr>sub_in_out := render_tag (TagOut minute)\<rparr>) (map_of hp pid)
      else if re_search_group ''/en/players/'' (CHR ''/'') href_in = Some pid
      then map_option (\<lambda>pd. pd\<lparr>sub_in_out := render_tag (TagIn minute)\<rparr>) (map_of hp pid)
      else map_of hp pid)"
  using process_event_none[of ev "(hp, ap, hs, as)"]
    process_event_home[of ev href_in href_out hp ap hs as]
    process_event_away[of ev href_in href_out hp ap hs as]
    tag_both_keys[of minute href_in href_out hp]
    tag_both_lookup[of minute href_in href_out hp pid]
  by blast

lemma example_sub_event_counts: "substitution_of example_sub_event =
     Some (Home, ''/en/players/aaaa1111/New-Man'', ''/en/players/bbbb2222/Old-Man'')"
  by (simp add: substitution_of_def example_sub_event_def)

lemma example_sub_event_minute: "event_minute example_sub_event = ''46''"
  by (simp add: event_minute_def example_sub_event_def minute_here_def is_digit_def prime_mark_def)

lemma example_in_code: "re_search_group ''/en/players/'' (CHR ''/'') ''/en/players/aaaa1111/New-Man'' = Some ''aaaa1111''"
  by (simp add: group_until_def)

lemma example_out_code: "re_search_group ''/en/players/'' (CHR ''/'') ''/en/players/bbbb2222/Old-Man'' = Some ''bbbb2222''"
  by (simp add: group_until_def)

theorem process_event_effect_witness:
  "substitution_of example_sub_event =
     Some (Home, ''/en/players/aaaa1111/New-Man'', ''/en/players/bbbb2222/Old-Man'') \<and>
   process_event example_sub_event (example_home_players, [], 0, 0) =
     ([(''bbbb2222'', (init_player_dict ''bbbb2222'' ''Old Man'')
          \<lparr>sub_in_out := ''Out | 46'' @ prime_mark\<rparr>)], [], 1, 0)"
proof -
  have "process_event example_sub_event (example_home_players, [], 0, 0) =
      (tag_both (event_minute example_sub_event) ''/en/players/aaaa1111/New-Man''
         ''/en/players/bbbb2222/Old-Man'' example_home_players, [], 0 + 1, 0)"
    using process_event_effect [where ev = example_sub_event
        and href_in = "''/en/players/aaaa1111/New-Man''"
        and href_out = "''/en/players/bbbb2222/Old-Man''"
        and hp = example_home_players and ap = "[]" and hs = 0 and as = 0] example_sub_event_counts
    by blast
  then show ?thesis
    by (simp add: example_sub_event_counts example_sub_event_minute tag_both_def group_until_def set_tag_def example_home_players_def)
qed

text \<open>
  The claim as written fails: the counter goes up, and the outgoing player is tagged,
  although the incoming player is not in the side's dictionary.
\<close>

theorem process_event_counterexample:
  "map_of example_home_players ''aaaa1111'' = None \<and>
   re_search_group ''/en/players/'' (CHR ''/'') ''/en/players/aaaa1111/New-Man'' = Some ''aaaa1111'' \<and>
   info example_sub_event = Some \<lparr>player_in_tag = Some ''/en/players/aaaa1111/New-Man'',
                   player_out_tag = Some ''/en/players/bbbb2222/Old-Man''\<rparr> \<and>
   process_event example_sub_event (example_home_players, [], 0, 0) =
     ([(''bbbb2222'', (init_player_dict ''bbbb2222'' ''Old Man'')
          \<lparr>sub_in_out := ''Out | 46'' @ prime_mark\<rparr>)], [], 1, 0)"
  by (simp add: process_event_def example_sub_event_def example_home_players_def
        event_minute_def minute_here_def is_digit_def prime_mark_def group_until_def set_tag_def)


section \<open>Tables of other teams\<close>

lemma process_table_other:
  "\<not> concerns h a tbl \<Longrightarrow> process_table fo h a tbl st = st"
  by (auto simp: concerns_def process_table_def split: option.splits)

lemma fold_process_table_filter:
  "fold (process_table fo h a) tables st =
   fold (process_table fo h a) (filter (concerns h a) tables) st"
  by (induction tables arbitrary: st) (simp_all add: process_table_other)

lemma upsert_player_keys:
  "fst ` set (upsert_player fo row pidv pname ps) = insert pidv (fst ` set ps)"
  by (simp add: upsert_player_def dom_update)

lemma process_row_home:
  "fst ` set (fst (process_row fo True row st)) = set (row_codes row) \<union> fst ` set (fst st)"
  "snd (process_row fo True row st) = snd st"
  by (cases st; cases "player_link row";
      simp add: process_row_def row_codes_def upsert_player_keys split: prod.splits)+

lemma process_row_away:
  "fst (process_row fo False row st) = fst st"
  "fst ` set (snd (process_row fo False row st)) = set (row_codes row) \<union> fst ` set (snd st)"
  by (cases st; cases "player_link row";
      simp add: process_row_def row_codes_def upsert_player_keys split: prod.splits)+

lemma fold_process_row_home:
  "fst ` set (fst (fold (process_row fo True) rows st)) =
     set (concat (map row_codes rows)) \<union> fst ` set (fst st)"
  "snd (fold (process_row fo True) rows st) = snd st"
proof (induction rows arbitrary: st)
  case Nil
  { case 1 show ?case by simp }
  { case 2 show ?case by simp }
next
  case (Cons row rows)
  { case 1 show ?case by (simp add: Cons.IH(1) process_row_home(1) Un_assoc Un_commute Un_left_commute) }
  { case 2 show ?case by (simp add: Cons.IH(2) process_row_home(2)) }
qed

lemma fold_process_row_away:
  "fst (fold (process_row fo False) rows st) = fst st"
  "fst ` set (snd (fold (process_row fo False) rows st)) =
     set (concat (map row_codes rows)) \<union> fst ` set (snd st)"
proof (induction rows arbitrary: st)
  case Nil
  { case 1 show ?case by simp }
  { case 2 show ?case by simp }
next
  case (Cons row rows)
  { case 1 show ?case by (simp add: Cons.IH(1) process_row_away(1)) }
  { case 2 show ?case by (simp add: Cons.IH(2) process_row_away(2) Un_assoc Un_commute Un_left_commute) }
qed

lemma process_table_home_keys:
  "fst ` set (fst (process_table fo h a tbl st)) =
     (if table_code tbl = Some h then set (table_player_codes tbl) else {}) \<union> fst ` set (fst st)"
proof (cases "table_code tbl")
  case None
  then show ?thesis by (simp add: process_table_def)
next
  case (Some code)
  show ?thesis
  proof (cases "tbody tbl")
    case None
    then show ?thesis using Some by (simp add: process_table_def table_player_codes_def)
  next
    case (Some rows)
    then show ?thesis using \<open>table_code tbl = Some code\<close>
      by (simp add: process_table_def table_player_codes_def fold_process_row_home
            fold_process_row_away)
  qed
qed

lemma process_table_away_keys:
  "fst ` set (snd (process_table fo h a tbl st)) =
     (if table_code tbl = Some a \<and> table_code tbl \<noteq> Some h
      then set (table_player_codes tbl) else {}) \<union> fst ` set (snd st)"
proof (cases "table_code tbl")
  case None
  then show ?thesis by (simp add: process_table_def)
next
  case (Some code)
  show ?thesis
  proof (cases "tbody tbl")
    case None
    then show ?thesis using Some by (simp add: process_table_def table_player_codes_def)
  next
    case (Some rows)
    then show ?thesis using \<open>table_code tbl = Some code\<close>
      by (simp add: process_table_def table_player_codes_def fold_process_row_home
            fold_process_row_away)
  qed
qed

lemma fold_process_table_home_keys:
  "fst ` set (fst (fold (process_table fo h a) tables st)) =
     (\<Union>tbl \<in> {t \<in> set tables. table_code t = Some h}. set (table_player_codes tbl))
       \<union> fst ` set (fst st)"
proof (induction tables arbitrary: st)
  case Nil
  show ?case by simp
next
  case (Cons tbl tables)
  show ?case
  proof (cases "table_code tbl = Some h")
    case True
    then have "{t \<in> set (tbl # tables). table_code t = Some h} =
        insert tbl {t \<in> set tables. table_code t = Some h}" by auto
    then show ?thesis
      by (simp add: Cons.IH process_table_home_keys True Un_assoc Un_commute Un_left_commute)
  next
    case False
    then have "{t \<in> set (tbl # tables). table_code t = Some h} =
        {t \<in> set tables. table_code t = Some h}" by auto
    then show ?thesis
      by (simp add: Cons.IH process_table_home_keys False)
  qed
qed

lemma fold_process_table_away_keys:
  "fst ` set (snd (fold (process_table fo h a) tables st)) =
     (\<Union>tbl \<in> {t \<in> set tables. table_code t = Some a \<and> table_code t \<noteq> Some h}.
        set (table_player_codes tbl))
       \<union> fst ` set (snd st)"
proof (induction tables arbitrary: st)
  case Nil
  show ?case by simp
next
  case (Cons tbl tables)
  show ?case
  proof (cases "table_code tbl = Some a \<and> table_code tbl \<noteq> Some h")
    case True
    then have "{t \<in> set (tbl # tables). table_code t = Some a \<and> table_code t \<noteq> Some h} =
        insert tbl {t \<in> set tables. table_code t = Some a \<and> table_code t \<noteq> Some h}" by auto
    moreover have "table_code tbl = Some a" "a \<noteq> h" using True by auto
    ultimately show ?thesis
      by (simp add: Cons.IH process_table_away_keys Un_assoc Un_commute Un_left_commute)
  next
    case False
    then have "{t \<in> set (tbl # tables). table_code t = Some a \<and> table_code t \<noteq> Some h} =
        {t \<in> set tables. table_code t = Some a \<and> table_code t \<noteq> Some h}" by auto
    moreover have "fst ` set (snd (process_table fo h a tbl st)) = fst ` set (snd st)"
      by (subst process_table_away_keys) (use False in auto)
    ultimately show ?thesis
      by (simp add: Cons.IH)
  qed
qed

text \<open>
  Claim C10. A statistics table whose team code is neither the home nor the away code is
  passed over: it changes neither dictionary, so the aggregator gives the same result as on
  the tables of the two sides alone. The players in the home dictionary are exactly those
  with a row in a table of the home code, and those in the away dictionary exactly those
  with a row in a table of the away code (where that differs from the home code).
\<close>

theorem tables_of_other_teams_ignored:
  "(\<not> concerns h a tbl \<longrightarrow> process_table fo h a tbl st = st) \<and>
   parse_stats_tables fo h a tables = parse_stats_tables fo h a (filter (concerns h a) tables) \<and>
   fst ` set (fst (parse_stats_tables fo h a tables)) =
     (\<Union>t \<in> {t \<in> set tables. table_code t = Some h}. set (table_player_codes t)) \<and>
   fst ` set (snd (parse_stats_tables fo h a tables)) =
     (\<Union>t \<in> {t \<in> set tables. table_code t = Some a \<and> table_code t \<noteq> Some h}.
        set (table_player_codes t))"
  using process_table_other[of h a tbl fo st]
    fold_process_table_filter[of fo h a tables "([], [])"]
    fold_process_table_home_keys[of fo h a tables "([], [])"]
    fold_process_table_away_keys[of fo h a tables "([], [])"]
  unfolding parse_stats_tables_def by simp

lemma example_table_codes: "map table_code example_tables = [Some ''hhhh0000'', Some ''xxxx9999'']"
  by (simp add: example_tables_def table_code_def re_match_group_def group_until_def)

theorem tables_of_other_teams_ignored_witness:
  "\<not> concerns ''hhhh0000'' ''aaaa0000'' (example_tables ! 1) \<and>
   process_table whole_float_ops ''hhhh0000'' ''aaaa0000'' (example_tables ! 1) ([], []) = ([], []) \<and>
   fst ` set (fst (parse_stats_tables whole_float_ops ''hhhh0000'' ''aaaa0000'' example_tables))
     = {''bbbb2222''} \<and>
   snd (parse_stats_tables whole_float_ops ''hhhh0000'' ''aaaa0000'' example_tables) = []"
proof -
  have c: "\<not> concerns ''hhhh0000'' ''aaaa0000'' (example_tables ! 1)"
    using example_table_codes by (simp add: concerns_def example_tables_def)
  have t: "{t \<in> set example_tables. table_code t = Some ''hhhh0000''} = {example_tables ! 0}"
    using example_table_codes by (auto simp: example_tables_def)
  have t2: "{t \<in> set example_tables. table_code t = Some ''aaaa0000'' \<and> table_code t \<noteq> Some ''hhhh0000''} = {}"
    using example_table_codes by (auto simp: example_tables_def)
  have p: "table_player_codes (example_tables ! 0) = [''bbbb2222'']"
    by (simp add: example_tables_def table_player_codes_def row_codes_def player_code_def group_until_def)
  note T = tables_of_other_teams_ignored [of "''hhhh0000''" "''aaaa0000''" "example_tables ! 1"
        whole_float_ops "([], [])" example_tables]
  have a1: "process_table whole_float_ops ''hhhh0000'' ''aaaa0000'' (example_tables ! 1) ([], [])
      = ([], [])"
    using T c by blast
  have a2: "fst ` set (fst (parse_stats_tables whole_float_ops ''hhhh0000'' ''aaaa0000'' example_tables))
      = {''bbbb2222''}"
    using T[THEN conjunct2, THEN conjunct2, THEN conjunct1] unfolding t by (simp add: p)
  have a3: "fst ` set (snd (parse_stats_tables whole_float_ops ''hhhh0000'' ''aaaa0000'' example_tables))
      = {}"
    using T[THEN conjunct2, THEN conjunct2, THEN conjunct2] unfolding t2 by simp
  show ?thesis using c a1 a2 a3 by simp
qed


section \<open>Atomic persistence\<close>

lemma execute_all_committed: "committed (snd (execute_all ex ss cn)) = committed cn"
  by (induction ss arbitrary: cn) (auto split: option.splits)

lemma execute_all_run_all:
  "fst (execute_all ex ss cn) = (run_all ex ss (working cn) \<noteq> None)"
  "fst (execute_all ex ss cn) \<Longrightarrow> run_all ex ss (working cn) = Some (working (snd (execute_all ex ss cn)))"
  by (induction ss arbitrary: cn) (auto split: option.splits)

lemma on_error_unchanged: "on_error be cn = (DBInsertError, committed cn)"
  by (simp add: on_error_def rollback_def close_def)

lemma persist_cases:
  "persist be stmts db =
     (if \<not> connect_ok be then (DBInsertError, db)
      else (case run_all (exec be) stmts db of
              None \<Rightarrow> (DBInsertError, db)
            | Some w \<Rightarrow> if commit_ok be w then (Inserted, w) else (DBInsertError, db)))"
proof -
  let ?cn0 = "\<lparr>committed = db, working = db\<rparr>"
  obtain ok cn where e: "execute_all (exec be) stmts ?cn0 = (ok, cn)"
    by (cases "execute_all (exec be) stmts ?cn0")
  have c: "committed cn = db" using execute_all_committed[of "exec be" stmts ?cn0] e by simp
  show ?thesis
  proof (cases ok)
    case True
    then have "run_all (exec be) stmts db = Some (working cn)"
      using execute_all_run_all(2)[of "exec be" stmts ?cn0] e by simp
    then show ?thesis using e True c
      by (simp add: persist_def on_error_unchanged commit_def close_def)
  next
    case False
    then have "run_all (exec be) stmts db = None"
      using execute_all_run_all(1)[of "exec be" stmts ?cn0] e by simp
    then show ?thesis using e False c
      by (simp add: persist_def on_error_unchanged)
  qed
qed

lemma run_all_append:
  "run_all ex (pre @ post) w = (case run_all ex pre w of None \<Rightarrow> None | Some w' \<Rightarrow> run_all ex post w')"
  by (induction pre arbitrary: w) (auto split: option.splits)

text \<open>
  Claim C2. The team row, the player rows and the batch of shot events go through one
  connection and one commit. If any statement of the batch raises, also the insert of the
  shot events after the team and player rows were staged, the store is left as it was
  before the match: nothing of the batch is stored. Only a run that reports the insertion
  has stored anything, and then it has stored the whole batch.
\<close>

theorem persist_atomic:
  "(run_all (exec be) stmts db = None \<longrightarrow> persist be stmts db = (DBInsertError, db)) \<and>
   (run_all (exec be) staged db = Some w \<and> exec be w failing = None
      \<longrightarrow> persist be (staged @ failing # rest) db = (DBInsertError, db)) \<and>
   (fst (persist be stmts db) \<noteq> Inserted \<longrightarrow> snd (persist be stmts db) = db) \<and>
   (fst (persist be stmts db) = Inserted
      \<longrightarrow> run_all (exec be) stmts db = Some (snd (persist be stmts db))) \<and>
   (fst (scrape_and_insert_match_data fo be c resp db) \<noteq> Inserted
      \<longrightarrow> snd (scrape_and_insert_match_data fo be c resp db) = db)"
proof -
  have a: "run_all (exec be) stmts db = None \<longrightarrow> persist be stmts db = (DBInsertError, db)"
    by (simp add: persist_cases)
  have b: "run_all (exec be) staged db = Some w \<and> exec be w failing = None
      \<longrightarrow> persist be (staged @ failing # rest) db = (DBInsertError, db)"
    by (simp add: persist_cases run_all_append)
  have c: "fst (persist be stmts db) \<noteq> Inserted \<longrightarrow> snd (persist be stmts db) = db" for stmts
    by (simp add: persist_cases split: option.splits)
  have d: "fst (persist be stmts db) = Inserted
      \<longrightarrow> run_all (exec be) stmts db = Some (snd (persist be stmts db))"
    by (simp add: persist_cases split: option.splits if_splits)
  have e: "fst (scrape_and_insert_match_data fo be c resp db) \<noteq> Inserted
      \<longrightarrow> snd (scrape_and_insert_match_data fo be c resp db) = db"
    using c by (simp add: scrape_and_insert_match_data_def Let_def split: option.splits)
  show ?thesis using a b c[of stmts] d e by blast
qed

theorem persist_atomic_witness:
  "run_all (exec refusing_events_backend)
     [Upsert ''all_matchups_teams'' [''date'', ''matchup'', ''comp'']
        [SqlStr ''2021-08-13'', SqlStr ''Arsenal @ Brentford'', SqlStr ''Premier League'']] empty_db
     = Some (empty_db(''all_matchups_teams'' :=
         [[(''date'', SqlStr ''2021-08-13''), (''matchup'', SqlStr ''Arsenal @ Brentford''),
           (''comp'', SqlStr ''Premier League'')]])) \<and>
   exec refusing_events_backend
     (empty_db(''all_matchups_teams'' :=
         [[(''date'', SqlStr ''2021-08-13''), (''matchup'', SqlStr ''Arsenal @ Brentford''),
           (''comp'', SqlStr ''Premier League'')]]))
     (InsertMany ''match_events'' [''minute''] [[SqlStr ''22'']]) = None \<and>
   persist refusing_events_backend
     ([Upsert ''all_matchups_teams'' [''date'', ''matchup'', ''comp'']
        [SqlStr ''2021-08-13'', SqlStr ''Arsenal @ Brentford'', SqlStr ''Premier League'']]
      @ InsertMany ''match_events'' [''minute''] [[SqlStr ''22'']] # []) empty_db
     = (DBInsertError, empty_db)"
proof -
  let ?w = "empty_db(''all_matchups_teams'' :=
         [[(''date'', SqlStr ''2021-08-13''), (''matchup'', SqlStr ''Arsenal @ Brentford''),
           (''comp'', SqlStr ''Premier League'')]])"
  let ?staged = "[Upsert ''all_matchups_teams'' [''date'', ''matchup'', ''comp'']
        [SqlStr ''2021-08-13'', SqlStr ''Arsenal @ Brentford'', SqlStr ''Premier League'' :: int sqlval]]"
  have h1: "run_all (exec refusing_events_backend) ?staged empty_db = Some ?w"
    by (simp add: refusing_events_backend_def mysql_exec_def upsert_row_def example_schema_def
          empty_db_def row_key_def)
  have h2: "exec refusing_events_backend ?w
      (InsertMany ''match_events'' [''minute''] [[SqlStr ''22'']]) = None"
    by (simp add: refusing_events_backend_def)
  show ?thesis
    using h1 h2
      persist_atomic [where be = refusing_events_backend and staged = ?staged and db = empty_db
        and w = ?w and failing = "InsertMany ''match_events'' [''minute''] [[SqlStr ''22'']]"
        and rest = "[]"]
    by blast
qed

section \<open>Team aggregates\<close>




















lemma sums_key_sides: "sums_key ''away'' c \<noteq> sums_key ''home'' c'"
  by (simp add: sums_key_def)










lemma int_cols_eq:
  "int_cols = [''shots'', ''shots_on_target'', ''fouls'', ''corner_kicks'', ''crosses'', ''touches'',
     ''tackles'', ''interceptions'', ''passes'', ''shots_assisted'', ''take_ons'',
     ''progressive_carries'', ''clearances'', ''tackles_def_3rd'', ''tackles_mid_3rd'',
     ''tackles_att_3rd'', ''blocked_shots'', ''blocked_passes'', ''challenges'',
     ''carries_into_final_third'', ''progressive_passes_received'', ''passes_into_final_third'',
     ''passes_into_penalty_area'', ''touches_def_3rd'', ''touches_mid_3rd'', ''touches_att_3rd'',
     ''touches_att_pen_area'']"
  by (simp add: int_cols_def stat_cols_def player_stat_map_def)



lemma length_concat_pairs: "length (concat (map (\<lambda>c. [f c, g c]) cs)) = 2 * length cs"
  by (induction cs) simp_all



lemma teams_columns_split:
  "teams_columns =
     [''date'', ''matchup'', ''comp'', ''home_squad'', ''away_squad'', ''score'',
      ''home_formation'', ''away_formation'', ''home_possession'', ''away_possession'',
      ''home_subs'', ''away_subs'']
     @ concat (map (\<lambda>col. [sums_key ''home'' col, sums_key ''away'' col]) int_cols)
     @ [''match_report_url'', ''home_sca'', ''away_sca'', ''home_team_id'', ''away_team_id'']"
  by (simp add: teams_columns_def int_cols_eq sums_key_def)

lemma teams_param_split:
  "teams_param c mm ts h a =
     [SqlStr (date_str c), SqlStr (matchup_str c), SqlStr (comp c), SqlStr (home_team c),
      SqlStr (away_team c), SqlStr (mm_final_score mm), SqlStr (mm_home_formation mm),
      SqlStr (mm_away_formation mm), SqlStr (mm_home_pos mm), SqlStr (mm_away_pos mm),
      SqlInt (mm_home_subs_val mm), SqlInt (mm_away_subs_val mm)]
     @ concat (map (\<lambda>col. [sql_of_num (ts (sums_key ''home'' col)),
                            sql_of_num (ts (sums_key ''away'' col))]) int_cols)
     @ [SqlStr (match_url c), SqlInt h, SqlInt a, SqlStr (mm_home_team_id mm),
        SqlStr (mm_away_team_id mm)]"
  by (simp add: teams_param_def int_cols_eq sums_key_def Let_def)











lemma example_match_codes: "map table_code (stats_tables example_match) = [Some ''cd051869'', Some ''18bb7c10'']"
  by (simp add: example_match_def table_code_def re_match_group_def group_until_def)




lemma whole_round: "py_round_int whole_float_ops x \<noteq> None"
  by (cases x) (simp_all add: py_round_int_def whole_float_ops_def)









section \<open>Running the same batch again\<close>

lemma upsert_row_keys:
  "row_key cols ` set (upsert_row (Some cols) r T) = insert (row_key cols r) (row_key cols ` set T)"
  by (auto simp: upsert_row_def image_iff split: if_splits)

lemma upsert_row_present:
  "row_key cols r \<in> row_key cols ` set T \<Longrightarrow>
   upsert_row (Some cols) r T = map (\<lambda>r'. if row_key cols r' = row_key cols r then r else r') T"
  by (simp add: upsert_row_def)

lemma fold_upsert_keys:
  "row_key cols ` set (fold (upsert_row (Some cols)) rs T) =
     row_key cols ` set rs \<union> row_key cols ` set T"
  by (induction rs arbitrary: T) (auto simp: upsert_row_keys)

lemma fold_upsert_snoc:
  "fold (upsert_row key) (rs @ [r]) T = upsert_row key r (fold (upsert_row key) rs T)"
  by simp

lemma fold_upsert_last_wins:
  "r' \<in> set (fold (upsert_row (Some cols)) rs T) \<Longrightarrow>
   find (\<lambda>r. row_key cols r = row_key cols r') (rev rs) = Some r \<Longrightarrow> r' = r"
proof (induction rs arbitrary: r' r rule: rev_induct)
  case Nil
  then show ?case by simp
next
  case (snoc x rs)
  let ?T1 = "fold (upsert_row (Some cols)) rs T"
  have mem: "r' \<in> set (upsert_row (Some cols) x ?T1)" using snoc.prems(1) by simp
  show ?case
  proof (cases "row_key cols x = row_key cols r'")
    case True
    then have rx: "r = x" using snoc.prems(2) by simp
    have "r' = x"
    proof (cases "row_key cols x \<in> row_key cols ` set ?T1")
      case True
      then show ?thesis using mem \<open>row_key cols x = row_key cols r'\<close>
        by (auto simp: upsert_row_present split: if_splits)
    next
      case False
      then show ?thesis using mem \<open>row_key cols x = row_key cols r'\<close>
        by (auto simp: upsert_row_def image_iff)
    qed
    then show ?thesis using rx by simp
  next
    case False
    then have f: "find (\<lambda>r. row_key cols r = row_key cols r') (rev rs) = Some r"
      using snoc.prems(2) by simp
    have "r' \<in> set ?T1"
      using mem False by (auto simp: upsert_row_def split: if_splits)
    then show ?thesis using snoc.IH f by blast
  qed
qed

lemma fold_upsert_present:
  "row_key cols ` set rs \<subseteq> row_key cols ` set T \<Longrightarrow>
   fold (upsert_row (Some cols)) rs T =
     map (\<lambda>r'. case find (\<lambda>r. row_key cols r = row_key cols r') (rev rs) of
                  Some r \<Rightarrow> r | None \<Rightarrow> r') T"
proof (induction rs arbitrary: T rule: rev_induct)
  case Nil
  then show ?case by simp
next
  case (snoc x rs)
  let ?T1 = "fold (upsert_row (Some cols)) rs T"
  have sub: "row_key cols ` set rs \<subseteq> row_key cols ` set T" using snoc.prems by auto
  have T1: "?T1 = map (\<lambda>r'. case find (\<lambda>r. row_key cols r = row_key cols r') (rev rs) of
                  Some r \<Rightarrow> r | None \<Rightarrow> r') T"
    using snoc.IH[OF sub] .
  have kx: "row_key cols x \<in> row_key cols ` set ?T1"
    using snoc.prems by (auto simp: fold_upsert_keys)
  have same_key: "row_key cols (case find (\<lambda>r. row_key cols r = row_key cols r') (rev rs) of
                  Some r \<Rightarrow> r | None \<Rightarrow> r') = row_key cols r'" for r'
    by (cases "find (\<lambda>r. row_key cols r = row_key cols r') (rev rs)")
       (auto dest: find_Some_iff[THEN iffD1])
  have "fold (upsert_row (Some cols)) (rs @ [x]) T = upsert_row (Some cols) x ?T1" by simp
  also have "\<dots> = map (\<lambda>r'. if row_key cols r' = row_key cols x then x else r') ?T1"
    using kx by (rule upsert_row_present)
  also have "\<dots> = map (\<lambda>r'. case find (\<lambda>r. row_key cols r = row_key cols r') (rev (rs @ [x])) of
                  Some r \<Rightarrow> r | None \<Rightarrow> r') T"
    unfolding T1 by (auto simp: same_key)
  finally show ?case .
qed

lemma fold_upsert_idem:
  "fold (upsert_row (Some cols)) rs (fold (upsert_row (Some cols)) rs T) =
   fold (upsert_row (Some cols)) rs T"
proof -
  let ?T1 = "fold (upsert_row (Some cols)) rs T"
  have "row_key cols ` set rs \<subseteq> row_key cols ` set ?T1" by (simp add: fold_upsert_keys)
  then have "fold (upsert_row (Some cols)) rs ?T1 =
     map (\<lambda>r'. case find (\<lambda>r. row_key cols r = row_key cols r') (rev rs) of
                  Some r \<Rightarrow> r | None \<Rightarrow> r') ?T1"
    by (rule fold_upsert_present)
  also have "\<dots> = ?T1"
  proof (rule map_idI)
    fix r' assume "r' \<in> set ?T1"
    then show "(case find (\<lambda>r. row_key cols r = row_key cols r') (rev rs) of
                  Some r \<Rightarrow> r | None \<Rightarrow> r') = r'"
      using fold_upsert_last_wins[of r' cols rs T]
      by (cases "find (\<lambda>r. row_key cols r = row_key cols r') (rev rs)") auto
  qed
  finally show ?thesis .
qed

lemma run_all_upserts:
  "list_all is_upsert ups \<Longrightarrow>
   run_all (mysql_exec sch) ups db =
     Some (\<lambda>t. fold (upsert_row (sch t)) (rows_for t ups) (db t))"
proof (induction ups arbitrary: db)
  case Nil
  then show ?case by simp
next
  case (Cons s ups)
  then obtain t cols vals where s: "s = Upsert t cols vals" "length cols = length vals"
    by (cases s) auto
  have "run_all (mysql_exec sch) (s # ups) db =
      run_all (mysql_exec sch) ups (db(t := upsert_row (sch t) (zip cols vals) (db t)))"
    using s by (simp add: mysql_exec_def)
  also have "\<dots> = Some (\<lambda>t'. fold (upsert_row (sch t')) (rows_for t' ups)
        ((db(t := upsert_row (sch t) (zip cols vals) (db t))) t'))"
    using Cons by simp
  also have "(\<lambda>t'. fold (upsert_row (sch t')) (rows_for t' ups)
        ((db(t := upsert_row (sch t) (zip cols vals) (db t))) t')) =
      (\<lambda>t'. fold (upsert_row (sch t')) (rows_for t' (s # ups)) (db t'))"
    using s by (auto simp: fun_eq_iff)
  finally show ?case .
qed

lemma insert_rows_result:
  "insert_rows key rows T = Some T' \<Longrightarrow> T' = T @ rows"
proof (induction rows arbitrary: T)
  case Nil
  then show ?case by simp
next
  case (Cons r rows)
  then obtain T1 where a: "insert_row key r T = Some T1" "insert_rows key rows T1 = Some T'"
    by (auto split: option.splits)
  have "T1 = T @ [r]" using a(1) by (auto simp: insert_row_def split: option.splits if_splits)
  then show ?case using Cons.IH[OF a(2)] by simp
qed

lemma insert_rows_no_key: "insert_rows None rows T = Some (T @ rows)"
  by (induction rows arbitrary: T) (simp_all add: insert_row_def)

lemma insert_rows_clash:
  "r \<in> set T \<Longrightarrow> insert_rows (Some cols) (r # rows) T = None"
  by (simp add: insert_row_def)

lemma shot_tuple_length: "shot_tuple c row = Some t \<Longrightarrow> length t = length events_columns"
  by (auto simp: shot_tuple_def events_columns_def Let_def split: if_splits)

lemma data_batch_lengths:
  "list_all (\<lambda>vals. length vals = length events_columns) (data_batch_of c d)"
proof -
  have "list_all (\<lambda>vals. length vals = length events_columns)
      (concat (map (\<lambda>row. case shot_tuple c row of None \<Rightarrow> [] | Some t \<Rightarrow> [t]) rows))" for rows
    by (induction rows) (auto simp: shot_tuple_length split: option.splits)
  then show ?thesis
    by (auto simp: data_batch_of_def split: option.splits)
qed

lemma teams_param_length: "length (teams_param c mm ts h a) = length teams_columns"
  by (simp add: teams_columns_split teams_param_split length_concat_pairs)

lemma param_player_length: "length (param_player c s opp ha pd) = length players_columns"
  by (simp add: param_player_def players_columns_def)

lemma insert_players_upserts: "list_all is_upsert (insert_players c ps s opp ha)"
  by (induction ps) (auto simp: insert_players_def param_player_length)

lemma insert_players_rows_for:
  "t \<noteq> ''all_matchups_players'' \<Longrightarrow> rows_for t (insert_players c ps s opp ha) = []"
  by (induction ps) (auto simp: insert_players_def)

lemma rows_for_append: "rows_for t (xs @ ys) = rows_for t xs @ rows_for t ys"
  by (induction xs rule: rows_for.induct) auto

lemma build_statements_shape:
  assumes "build_statements fo c d (hp, ap, mm, ws) = Some stmts"
  shows "\<exists>h a. stmts = upserts_of fo c hp ap mm h a @ insert_events c d"
  using assms
  by (auto simp: build_statements_def upserts_of_def Let_def split: option.splits)

lemma upserts_of_ok: "list_all is_upsert (upserts_of fo c hp ap mm h a)"
  by (simp add: upserts_of_def teams_param_length insert_players_upserts)

lemma upserts_of_tables:
  "t \<noteq> ''all_matchups_teams'' \<Longrightarrow> t \<noteq> ''all_matchups_players'' \<Longrightarrow>
   rows_for t (upserts_of fo c hp ap mm h a) = []"
  by (simp add: upserts_of_def rows_for_append insert_players_rows_for)

lemma persist_mysql:
  "persist (mysql_backend sch) stmts db =
     (case run_all (mysql_exec sch) stmts db of
        None \<Rightarrow> (DBInsertError, db)
      | Some w \<Rightarrow> (Inserted, w))"
  by (simp add: persist_cases mysql_backend_def split: option.splits)

lemma upserts_then_events:
  fixes db :: "'f db"
  assumes "list_all is_upsert ups"
  shows "run_all (mysql_exec sch) (ups @ insert_events c d) db =
     (if (data_batch_of c d :: 'f sqlval list list) = [] then Some (\<lambda>t. fold (upsert_row (sch t)) (rows_for t ups) (db t))
      else map_option
             (\<lambda>rows. (\<lambda>t. fold (upsert_row (sch t)) (rows_for t ups) (db t))
                        (''match_events'' := rows))
             (insert_rows (sch ''match_events'')
                (map (zip events_columns) (data_batch_of c d))
                (fold (upsert_row (sch ''match_events'')) (rows_for ''match_events'' ups)
                   (db ''match_events''))))"
proof (cases "(data_batch_of c d :: 'f sqlval list list) = []")
  case True
  then show ?thesis
    by (simp add: run_all_upserts[OF assms] insert_events_def Let_def)
next
  case False
  let ?W = "\<lambda>t. fold (upsert_row (sch t)) (rows_for t ups) (db t)"
  have e: "(insert_events c d :: 'f statement list) =
      [InsertMany ''match_events'' events_columns (data_batch_of c d)]"
    using False by (simp add: insert_events_def Let_def)
  have m: "mysql_exec sch ?W (InsertMany ''match_events'' events_columns (data_batch_of c d)) =
      map_option (\<lambda>rows. ?W(''match_events'' := rows))
        (insert_rows (sch ''match_events'') (map (zip events_columns) (data_batch_of c d))
           (?W ''match_events''))"
    by (simp add: mysql_exec_def data_batch_lengths)
  have "run_all (mysql_exec sch) (ups @ insert_events c d) db =
      (case mysql_exec sch ?W (InsertMany ''match_events'' events_columns (data_batch_of c d)) of
         None \<Rightarrow> None | Some w' \<Rightarrow> Some w')"
    unfolding e by (simp add: run_all_append run_all_upserts[OF assms] split: option.splits)
  also have "\<dots> = mysql_exec sch ?W (InsertMany ''match_events'' events_columns (data_batch_of c d))"
    by (simp split: option.splits)
  finally show ?thesis using False unfolding m by simp
qed

lemma upserts_idem_table:
  assumes "sch ''all_matchups_teams'' \<noteq> None" "sch ''all_matchups_players'' \<noteq> None"
  shows "fold (upsert_row (sch t)) (rows_for t (upserts_of fo c hp ap mm h a))
           (fold (upsert_row (sch t)) (rows_for t (upserts_of fo c hp ap mm h a)) T) =
         fold (upsert_row (sch t)) (rows_for t (upserts_of fo c hp ap mm h a)) T"
proof (cases "t = ''all_matchups_teams'' \<or> t = ''all_matchups_players''")
  case True
  then obtain cols where "sch t = Some cols" using assms by auto
  then show ?thesis by (simp add: fold_upsert_idem)
next
  case False
  then show ?thesis by (simp add: upserts_of_tables)
qed

lemma first_run_events:
  assumes b: "build_statements fo c d (hp, ap, mm, ws) = Some stmts"
    and n: "sch ''match_events'' = None"
  shows "\<exists>db'. persist (mysql_backend sch) stmts db = (Inserted, db') \<and>
     db' ''match_events'' = db ''match_events'' @ map (zip events_columns) (data_batch_of c d)"
proof -
  obtain h a where s: "stmts = upserts_of fo c hp ap mm h a @ insert_events c d"
    using build_statements_shape[OF b] by blast
  have r: "rows_for ''match_events'' (upserts_of fo c hp ap mm h a) = []"
    by (simp add: upserts_of_tables)
  show ?thesis
    unfolding s persist_mysql upserts_then_events[OF upserts_of_ok]
    by (simp add: r n insert_rows_no_key)
qed

text \<open>
  Claim C3, as amended. On a store where the team table and the player table have a unique
  key among their written columns, let a batch have been stored. Running the same batch
  again leaves the team and player tables as they are: the upserts overwrite the rows with
  themselves. The shot events are written by a plain insert, without a row number and
  without an update on a duplicate key: with no unique key over the written columns the
  second run succeeds and stores every shot event of the batch a second time; with such a
  key the second run fails on the first event and is rolled back as a whole. Only a batch
  without shot events is stored again as a no-op.
\<close>

theorem second_run_of_same_batch:
  fixes db :: "'f db"
  assumes k1: "sch ''all_matchups_teams'' \<noteq> None" and k2: "sch ''all_matchups_players'' \<noteq> None"
    and b: "build_statements fo c d (hp, ap, mm, ws) = Some stmts"
    and first: "persist (mysql_backend sch) stmts db = (Inserted, db1)"
  shows "((data_batch_of c d :: 'f sqlval list list) = []
            \<longrightarrow> persist (mysql_backend sch) stmts db1 = (Inserted, db1)) \<and>
         (sch ''match_events'' = None
            \<longrightarrow> (\<exists>db2. persist (mysql_backend sch) stmts db1 = (Inserted, db2) \<and>
                  (\<forall>t. t \<noteq> ''match_events'' \<longrightarrow> db2 t = db1 t) \<and>
                  db1 ''match_events'' =
                    db ''match_events'' @ map (zip events_columns) (data_batch_of c d) \<and>
                  db2 ''match_events'' =
                    db1 ''match_events'' @ map (zip events_columns) (data_batch_of c d))) \<and>
         (sch ''match_events'' \<noteq> None \<and> (data_batch_of c d :: 'f sqlval list list) \<noteq> []
            \<longrightarrow> persist (mysql_backend sch) stmts db1 = (DBInsertError, db1))"
proof -
  obtain h a where s: "stmts = upserts_of fo c hp ap mm h a @ insert_events c d"
    using build_statements_shape[OF b] by blast
  let ?ups = "upserts_of fo c hp ap mm h a"
  let ?rows = "map (zip events_columns) (data_batch_of c d)"
  let ?W = "\<lambda>db t. fold (upsert_row (sch t)) (rows_for t ?ups) (db t)"
  note idem = upserts_idem_table[OF k1 k2, of _ fo c hp ap mm h a]
  have r: "rows_for ''match_events'' ?ups = []" by (simp add: upserts_of_tables)
  have run: "run_all (mysql_exec sch) stmts db' =
     (if (data_batch_of c d :: 'f sqlval list list) = [] then Some (?W db')
      else map_option (\<lambda>rows. (?W db')(''match_events'' := rows))
             (insert_rows (sch ''match_events'') ?rows (db' ''match_events'')))" for db'
    unfolding s upserts_then_events[OF upserts_of_ok] by (simp add: r)
  have c1: "(data_batch_of c d :: 'f sqlval list list) = [] \<longrightarrow> persist (mysql_backend sch) stmts db1 = (Inserted, db1)"
  proof
    assume e: "(data_batch_of c d :: 'f sqlval list list) = []"
    have "db1 = ?W db" using first unfolding persist_mysql run by (simp add: e)
    then have "?W db1 = db1" by (simp add: idem fun_eq_iff)
    then show "persist (mysql_backend sch) stmts db1 = (Inserted, db1)"
      unfolding persist_mysql run by (simp add: e)
  qed
  have c2: "sch ''match_events'' = None
            \<longrightarrow> (\<exists>db2. persist (mysql_backend sch) stmts db1 = (Inserted, db2) \<and>
                  (\<forall>t. t \<noteq> ''match_events'' \<longrightarrow> db2 t = db1 t) \<and>
                  db1 ''match_events'' = db ''match_events'' @ ?rows \<and>
                  db2 ''match_events'' = db1 ''match_events'' @ ?rows)"
  proof
    assume n: "sch ''match_events'' = None"
    have run': "run_all (mysql_exec sch) stmts db' =
        Some ((?W db')(''match_events'' := db' ''match_events'' @ ?rows))" for db'
      unfolding run by (auto simp: n insert_rows_no_key r fun_eq_iff)
    have d1: "db1 = (?W db)(''match_events'' := db ''match_events'' @ ?rows)"
      using first unfolding persist_mysql run' by simp
    let ?db2 = "(?W db1)(''match_events'' := db1 ''match_events'' @ ?rows)"
    have p2: "persist (mysql_backend sch) stmts db1 = (Inserted, ?db2)"
      unfolding persist_mysql run' by simp
    have other: "db1 t = ?W db t" if "t \<noteq> ''match_events''" for t
      using that by (subst d1) simp
    have same: "\<forall>t. t \<noteq> ''match_events'' \<longrightarrow> ?db2 t = db1 t"
      by (simp add: other idem)
    have e1: "db1 ''match_events'' = db ''match_events'' @ ?rows"
      by (subst d1) simp
    have e2: "?db2 ''match_events'' = db1 ''match_events'' @ ?rows" by simp
    show "\<exists>db2. persist (mysql_backend sch) stmts db1 = (Inserted, db2) \<and>
                  (\<forall>t. t \<noteq> ''match_events'' \<longrightarrow> db2 t = db1 t) \<and>
                  db1 ''match_events'' = db ''match_events'' @ ?rows \<and>
                  db2 ''match_events'' = db1 ''match_events'' @ ?rows"
      using p2 same e1 e2 by blast
  qed
  have c3: "sch ''match_events'' \<noteq> None \<and> (data_batch_of c d :: 'f sqlval list list) \<noteq> []
            \<longrightarrow> persist (mysql_backend sch) stmts db1 = (DBInsertError, db1)"
  proof
    assume a: "sch ''match_events'' \<noteq> None \<and> (data_batch_of c d :: 'f sqlval list list) \<noteq> []"
    then obtain cols where k: "sch ''match_events'' = Some cols" by auto
    obtain r0 rs where rows: "(?rows :: 'f row list) = r0 # rs"
      using a by (cases "data_batch_of c d :: 'f sqlval list list") auto
    obtain T' where ins: "insert_rows (sch ''match_events'') ?rows (db ''match_events'') = Some T'"
      and d1: "db1 = (?W db)(''match_events'' := T')"
      using first a unfolding persist_mysql run by (auto split: option.splits)
    have "T' = db ''match_events'' @ ?rows" using insert_rows_result[OF ins] .
    then have "r0 \<in> set (db1 ''match_events'')" using rows by (subst d1) simp
    then have "insert_rows (sch ''match_events'') ?rows (db1 ''match_events'') = None"
      unfolding k rows by (rule insert_rows_clash)
    then show "persist (mysql_backend sch) stmts db1 = (DBInsertError, db1)"
      unfolding persist_mysql run using a by simp
  qed
  show ?thesis using c1 c2 c3 by blast
qed

lemma build_statements_whole:
  "\<exists>stmts. build_statements whole_float_ops c d x = Some stmts"
proof -
  obtain hp ap mm ws where x: "x = (hp, ap, mm, ws)" by (cases x) auto
  obtain h where h: "sca_val whole_float_ops hp = Some h"
    using whole_round by (fastforce simp: sca_val_def)
  obtain a where a: "sca_val whole_float_ops ap = Some a"
    using whole_round by (fastforce simp: sca_val_def)
  show ?thesis unfolding x by (simp add: build_statements_def h a Let_def)
qed

lemma example_batch:
  "map (zip events_columns)
     (data_batch_of (example_ctx\<lparr>match_url := normalize_url (match_url example_ctx)\<rparr>) example_match)
   = [example_shot_row]"
  by (simp add: data_batch_of_def example_match_def shot_tuple_def get_value_from_td_or_th_def
        get_player_id_def sql_of_opt_def events_columns_def example_ctx_def normalize_url_def
        example_shot_row_def strip_def is_space_def Let_def)

lemma example_scrape:
  "\<exists>stmts hp ap mm ws.
     build_statements whole_float_ops
        (example_ctx\<lparr>match_url := normalize_url (match_url example_ctx)\<rparr>) example_match
        (hp, ap, mm, ws) = Some stmts \<and>
     (\<forall>db. scrape_and_insert_match_data whole_float_ops (mysql_backend example_schema)
             example_ctx (Some example_match) db
           = persist (mysql_backend example_schema) stmts db)"
proof -
  let ?c = "example_ctx\<lparr>match_url := normalize_url (match_url example_ctx)\<rparr>"
  obtain hp ap mm ws where
    dm: "derive_match whole_float_ops ?c example_match example_scorebox = (hp, ap, mm, ws)"
    by (cases "derive_match whole_float_ops ?c example_match example_scorebox") auto
  obtain stmts where
    b: "build_statements whole_float_ops ?c example_match (hp, ap, mm, ws) = Some stmts"
    using build_statements_whole by blast
  have sb: "find_scorebox example_match = Some example_scorebox"
    by (simp add: example_match_def example_scorebox_def)
  have "scrape_and_insert_match_data whole_float_ops (mysql_backend example_schema)
             example_ctx (Some example_match) db
           = persist (mysql_backend example_schema) stmts db" for db :: "int db"
    by (simp add: scrape_and_insert_match_data_def sb dm b Let_def)
  then show ?thesis using b by blast
qed

lemma example_schema_keys:
  "example_schema ''all_matchups_teams'' \<noteq> None"
  "example_schema ''all_matchups_players'' \<noteq> None"
  "example_schema ''match_events'' = None"
  by (simp_all add: example_schema_def)

text \<open>
  The claim as written fails: after the second run of the example match the table of shot
  events holds the one shot twice.
\<close>

theorem second_run_duplicates_events_counterexample:
  "fst (scrape_and_insert_match_data whole_float_ops (mysql_backend example_schema)
          example_ctx (Some example_match) empty_db) = Inserted \<and>
   snd (scrape_and_insert_match_data whole_float_ops (mysql_backend example_schema)
          example_ctx (Some example_match) empty_db) ''match_events'' = [example_shot_row] \<and>
   fst (scrape_and_insert_match_data whole_float_ops (mysql_backend example_schema)
          example_ctx (Some example_match)
          (snd (scrape_and_insert_match_data whole_float_ops (mysql_backend example_schema)
                  example_ctx (Some example_match) empty_db))) = Inserted \<and>
   snd (scrape_and_insert_match_data whole_float_ops (mysql_backend example_schema)
          example_ctx (Some example_match)
          (snd (scrape_and_insert_match_data whole_float_ops (mysql_backend example_schema)
                  example_ctx (Some example_match) empty_db))) ''match_events''
     = [example_shot_row, example_shot_row]"
proof -
  let ?c = "example_ctx\<lparr>match_url := normalize_url (match_url example_ctx)\<rparr>"
  obtain stmts hp ap mm ws where
    b: "build_statements whole_float_ops ?c example_match (hp, ap, mm, ws) = Some stmts" and
    s: "\<And>db. scrape_and_insert_match_data whole_float_ops (mysql_backend example_schema)
             example_ctx (Some example_match) db
           = persist (mysql_backend example_schema) stmts db"
    using example_scrape by blast
  obtain db1 where 1: "persist (mysql_backend example_schema) stmts empty_db = (Inserted, db1)"
    and e1: "db1 ''match_events'' = empty_db ''match_events'' @ [example_shot_row]"
    using first_run_events[where sch = example_schema and db = empty_db, OF b example_schema_keys(3)] unfolding example_batch
    by blast
  obtain db2 where 2: "persist (mysql_backend example_schema) stmts db1 = (Inserted, db2)"
    and e2: "db2 ''match_events'' = db1 ''match_events'' @ [example_shot_row]"
    using first_run_events[where sch = example_schema and db = db1, OF b example_schema_keys(3)] unfolding example_batch
    by blast
  show ?thesis unfolding s 1 using 2 e1 e2 by (simp add: empty_db_def)
qed

theorem second_run_of_same_batch_witness:
  "example_schema ''all_matchups_teams'' \<noteq> None \<and>
   example_schema ''all_matchups_players'' \<noteq> None \<and>
   example_schema ''match_events'' = None \<and>
   (\<exists>stmts hp ap mm ws db1 db2.
      build_statements whole_float_ops
        (example_ctx\<lparr>match_url := normalize_url (match_url example_ctx)\<rparr>) example_match
        (hp, ap, mm, ws) = Some stmts \<and>
      persist (mysql_backend example_schema) stmts empty_db = (Inserted, db1) \<and>
      persist (mysql_backend example_schema) stmts db1 = (Inserted, db2) \<and>
      db2 ''all_matchups_teams'' = db1 ''all_matchups_teams'' \<and>
      db2 ''all_matchups_players'' = db1 ''all_matchups_players'' \<and>
      db1 ''match_events'' = [example_shot_row] \<and>
      db2 ''match_events'' = [example_shot_row, example_shot_row])"
proof -
  let ?c = "example_ctx\<lparr>match_url := normalize_url (match_url example_ctx)\<rparr>"
  obtain stmts hp ap mm ws where
    b: "build_statements whole_float_ops ?c example_match (hp, ap, mm, ws) = Some stmts"
    using example_scrape by blast
  obtain db1 where 1: "persist (mysql_backend example_schema) stmts empty_db = (Inserted, db1)"
    using first_run_events[where sch = example_schema and db = empty_db, OF b example_schema_keys(3)] by blast
  note T = second_run_of_same_batch [where sch = example_schema, OF example_schema_keys(1) example_schema_keys(2) b 1]
  from T example_schema_keys(3) obtain db2 where
    2: "persist (mysql_backend example_schema) stmts db1 = (Inserted, db2)" and
    same: "\<forall>t. t \<noteq> ''match_events'' \<longrightarrow> db2 t = db1 t" and
    e1: "db1 ''match_events'' = empty_db ''match_events'' @ [example_shot_row]" and
    e2: "db2 ''match_events'' = db1 ''match_events'' @ [example_shot_row]"
    unfolding example_batch by blast
  have "db2 ''all_matchups_teams'' = db1 ''all_matchups_teams''"
    "db2 ''all_matchups_players'' = db1 ''all_matchups_players''"
    using same by simp_all
  moreover have "db1 ''match_events'' = [example_shot_row]"
    "db2 ''match_events'' = [example_shot_row, example_shot_row]"
    using e1 e2 by (simp_all add: empty_db_def)
  ultimately show ?thesis using example_schema_keys b 1 2 by blast
qed

section \<open>A report without a score box\<close>

lemma map_of_zip_head:
  assumes "length H = length HV" "k \<in> set H"
  shows "map_of (zip (H @ M) (HV @ MV)) k = map_of (zip H HV) k"
proof -
  obtain y where y: "map_of (zip H HV) k = Some y"
    using assms by (cases "map_of (zip H HV) k") (auto simp: map_of_zip_is_None)
  have e: "zip (H @ M) (HV @ MV) = zip H HV @ zip M MV" using assms(1) by simp
  show ?thesis unfolding e by (simp only: map_of_append map_add_def y option.case)
qed

lemma team_row_meta:
  "map_of (zip teams_columns (teams_param c mm ts h a)) ''score'' = Some (SqlStr (mm_final_score mm))"
  "map_of (zip teams_columns (teams_param c mm ts h a)) ''home_formation''
     = Some (SqlStr (mm_home_formation mm))"
  "map_of (zip teams_columns (teams_param c mm ts h a)) ''away_formation''
     = Some (SqlStr (mm_away_formation mm))"
  "map_of (zip teams_columns (teams_param c mm ts h a)) ''home_possession''
     = Some (SqlStr (mm_home_pos mm))"
  "map_of (zip teams_columns (teams_param c mm ts h a)) ''away_possession''
     = Some (SqlStr (mm_away_pos mm))"
  unfolding teams_columns_split teams_param_split
  by (subst map_of_zip_head; simp)+

lemma derive_match_meta:
  "derive_match fo c d sb = (hp, ap, mm, ws) \<Longrightarrow>
   mm_final_score mm = final_score_of sb \<and>
   mm_home_pos mm = fst (possession_of d) \<and> mm_away_pos mm = snd (possession_of d) \<and>
   mm_home_formation mm = fst (formations_of d) \<and> mm_away_formation mm = snd (formations_of d)"
  by (auto simp: derive_match_def Let_def split: prod.splits)

lemma process_event_keys:
  "process_event ev (hp, ap, hs, as) = (hp', ap', hs', as') \<Longrightarrow>
   map fst hp' = map fst hp \<and> map fst ap' = map fst ap"
  by (auto simp: process_event_def Let_def set_tag_keys split: option.splits side.splits if_splits)

lemma fold_process_event_keys:
  "map fst (fst (fold process_event evs st)) = map fst (fst st) \<and>
   map fst (fst (snd (fold process_event evs st))) = map fst (fst (snd st))"
proof (induction evs arbitrary: st)
  case Nil
  show ?case by simp
next
  case (Cons ev evs)
  obtain hp ap hs as where st: "st = (hp, ap, hs, as)" by (cases st) auto
  obtain hp' ap' hs' as' where e: "process_event ev (hp, ap, hs, as) = (hp', ap', hs', as')"
    by (cases "process_event ev (hp, ap, hs, as)") auto
  show ?case using Cons.IH[of "process_event ev st"] process_event_keys[OF e] e st by simp
qed

lemma derive_match_no_tables:
  fixes fo :: "'a float_ops"
  assumes "stats_tables d = []" "derive_match fo c d sb = (hp, ap, mm, ws)"
  shows "hp = [] \<and> ap = []"
proof -
  obtain h a w where r: "resolve_team_ids (home_team c) (away_team c) sb = (h, a, w)"
    by (cases "resolve_team_ids (home_team c) (away_team c) sb") auto
  have p: "parse_stats_tables fo h a (stats_tables d) = ([], [])"
    using assms(1) by (simp add: parse_stats_tables_def)
  obtain hp1 ap1 hs as where s:
    "process_substitutions (events_wrap d) ([] :: 'a players, [] :: 'a players) = (hp1, ap1, hs, as)"
    by (cases "process_substitutions (events_wrap d) ([] :: 'a players, [] :: 'a players)") auto
  have "hp1 = [] \<and> ap1 = []"
  proof (cases "events_wrap d")
    case None
    then show ?thesis using s by (simp add: process_substitutions_def)
  next
    case (Some evs)
    then have f: "fold process_event evs ([], [], 0, 0) = (hp1, ap1, hs, as)"
      using s by (simp add: process_substitutions_def)
    show ?thesis
      using fold_process_event_keys[of evs "([], [], 0, 0) :: 'a sub_state"] unfolding f by simp
  qed
  moreover have "hp = assign_starters hp1" "ap = assign_starters ap1"
    using assms(2) r p s by (simp_all add: derive_match_def Let_def split: prod.splits)
  ultimately show ?thesis by (simp add: assign_starters_def)
qed

lemma sca_val_empty: "sca_val fo [] = Some 0"
  by (simp add: sca_val_def py_sum_def py_round_int_def)

text \<open>
  Claim C7. For a document without the score box the run ends at once: the store is left
  as it was. A document with the score box goes on to the derivation and the persistence
  step, whatever else is missing: the statements are built and sent, the first of them the
  team row, which carries the score, the possessions and the formations that were read, and
  so "0 : 0" without score elements, "0%" without the possession row and "Unknown" without
  a line-up block; a store that takes the statements ends the run as inserted. The
  statements are built whenever rounding the two sums of shot-creating actions returns, as
  it does for a document without stats tables, which has no player.
\<close>

theorem no_scorebox_aborts:
  "(find_scorebox d = None
      \<longrightarrow> scrape_and_insert_match_data fo be c (Some d) db = (NoScorebox, db)) \<and>
   (find_scorebox d = Some sb
      \<longrightarrow> scrape_and_insert_match_data fo be c (Some d) db =
          (case build_statements fo (c\<lparr>match_url := normalize_url (match_url c)\<rparr>) d
                  (derive_match fo (c\<lparr>match_url := normalize_url (match_url c)\<rparr>) d sb) of
             None \<Rightarrow> (RoundError, db)
           | Some stmts \<Rightarrow> persist be stmts db) \<and>
          fst (scrape_and_insert_match_data fo be c (Some d) db) \<noteq> NoScorebox) \<and>
   (score_divs sb = [] \<and> possession_tds d = None \<and>
    home_lineup_div d = None \<and> away_lineup_div d = None
      \<longrightarrow> (case derive_match fo c d sb of (hp, ap, mm, ws) \<Rightarrow>
            mm_final_score mm = ''0 : 0'' \<and> mm_home_pos mm = ''0%'' \<and> mm_away_pos mm = ''0%'' \<and>
            mm_home_formation mm = ''Unknown'' \<and> mm_away_formation mm = ''Unknown'')) \<and>
   (find_scorebox d = Some sb \<and>
    derive_match fo (c\<lparr>match_url := normalize_url (match_url c)\<rparr>) d sb = (hp, ap, mm, ws) \<and>
    sca_val fo hp = Some h \<and> sca_val fo ap = Some a \<and>
    vals = teams_param (c\<lparr>match_url := normalize_url (match_url c)\<rparr>) mm (team_sums_of fo hp ap) h a \<and>
    stmts = Upsert ''all_matchups_teams'' teams_columns vals
            # insert_players (c\<lparr>match_url := normalize_url (match_url c)\<rparr>) hp
                (home_team c) (away_team c) ''home''
            @ insert_players (c\<lparr>match_url := normalize_url (match_url c)\<rparr>) ap
                (away_team c) (home_team c) ''away''
            @ insert_events (c\<lparr>match_url := normalize_url (match_url c)\<rparr>) d
      \<longrightarrow> scrape_and_insert_match_data fo be c (Some d) db = persist be stmts db \<and>
          map_of (zip teams_columns vals) ''score'' = Some (SqlStr (final_score_of sb)) \<and>
          map_of (zip teams_columns vals) ''home_possession'' = Some (SqlStr (fst (possession_of d))) \<and>
          map_of (zip teams_columns vals) ''away_possession'' = Some (SqlStr (snd (possession_of d))) \<and>
          map_of (zip teams_columns vals) ''home_formation'' = Some (SqlStr (fst (formations_of d))) \<and>
          map_of (zip teams_columns vals) ''away_formation'' = Some (SqlStr (snd (formations_of d))) \<and>
          (score_divs sb = [] \<longrightarrow> map_of (zip teams_columns vals) ''score'' = Some (SqlStr ''0 : 0'')) \<and>
          (possession_tds d = None
             \<longrightarrow> map_of (zip teams_columns vals) ''home_possession'' = Some (SqlStr ''0%'') \<and>
                 map_of (zip teams_columns vals) ''away_possession'' = Some (SqlStr ''0%'')) \<and>
          (home_lineup_div d = None \<or> away_lineup_div d = None
             \<longrightarrow> map_of (zip teams_columns vals) ''home_formation'' = Some (SqlStr ''Unknown'') \<and>
                 map_of (zip teams_columns vals) ''away_formation'' = Some (SqlStr ''Unknown'')) \<and>
          (connect_ok be \<and> run_all (exec be) stmts db = Some w \<and> commit_ok be w
             \<longrightarrow> scrape_and_insert_match_data fo be c (Some d) db = (Inserted, w))) \<and>
   (stats_tables d = [] \<and>
    derive_match fo (c\<lparr>match_url := normalize_url (match_url c)\<rparr>) d sb = (hp, ap, mm, ws)
      \<longrightarrow> hp = [] \<and> ap = [] \<and> sca_val fo hp = Some 0 \<and> sca_val fo ap = Some 0)"
proof -
  let ?c = "c\<lparr>match_url := normalize_url (match_url c)\<rparr>"
  have p: "fst (persist be stmts db) \<noteq> NoScorebox" for stmts
    by (simp add: persist_cases split: option.splits)
  have a: "find_scorebox d = None
      \<longrightarrow> scrape_and_insert_match_data fo be c (Some d) db = (NoScorebox, db)"
    by (simp add: scrape_and_insert_match_data_def)
  have b: "find_scorebox d = Some sb
      \<longrightarrow> scrape_and_insert_match_data fo be c (Some d) db =
          (case build_statements fo ?c d (derive_match fo ?c d sb) of
             None \<Rightarrow> (RoundError, db)
           | Some stmts \<Rightarrow> persist be stmts db)"
    by (simp add: scrape_and_insert_match_data_def Let_def)
  have b': "find_scorebox d = Some sb
      \<longrightarrow> fst (scrape_and_insert_match_data fo be c (Some d) db) \<noteq> NoScorebox"
    using p by (simp add: scrape_and_insert_match_data_def Let_def split: option.splits)
  have m: "score_divs sb = [] \<and> possession_tds d = None \<and>
    home_lineup_div d = None \<and> away_lineup_div d = None
      \<longrightarrow> (case derive_match fo c d sb of (hp, ap, mm, ws) \<Rightarrow>
            mm_final_score mm = ''0 : 0'' \<and> mm_home_pos mm = ''0%'' \<and> mm_away_pos mm = ''0%'' \<and>
            mm_home_formation mm = ''Unknown'' \<and> mm_away_formation mm = ''Unknown'')"
    by (simp add: derive_match_def final_score_of_def possession_of_def formations_of_def
          Let_def split: prod.splits)
  have n: "find_scorebox d = Some sb \<and>
    derive_match fo ?c d sb = (hp, ap, mm, ws) \<and>
    sca_val fo hp = Some h \<and> sca_val fo ap = Some a \<and>
    vals = teams_param ?c mm (team_sums_of fo hp ap) h a \<and>
    stmts = Upsert ''all_matchups_teams'' teams_columns vals
            # insert_players ?c hp (home_team c) (away_team c) ''home''
            @ insert_players ?c ap (away_team c) (home_team c) ''away''
            @ insert_events ?c d
      \<longrightarrow> scrape_and_insert_match_data fo be c (Some d) db = persist be stmts db \<and>
          map_of (zip teams_columns vals) ''score'' = Some (SqlStr (final_score_of sb)) \<and>
          map_of (zip teams_columns vals) ''home_possession'' = Some (SqlStr (fst (possession_of d))) \<and>
          map_of (zip teams_columns vals) ''away_possession'' = Some (SqlStr (snd (possession_of d))) \<and>
          map_of (zip teams_columns vals) ''home_formation'' = Some (SqlStr (fst (formations_of d))) \<and>
          map_of (zip teams_columns vals) ''away_formation'' = Some (SqlStr (snd (formations_of d))) \<and>
          (score_divs sb = [] \<longrightarrow> map_of (zip teams_columns vals) ''score'' = Some (SqlStr ''0 : 0'')) \<and>
          (possession_tds d = None
             \<longrightarrow> map_of (zip teams_columns vals) ''home_possession'' = Some (SqlStr ''0%'') \<and>
                 map_of (zip teams_columns vals) ''away_possession'' = Some (SqlStr ''0%'')) \<and>
          (home_lineup_div d = None \<or> away_lineup_div d = None
             \<longrightarrow> map_of (zip teams_columns vals) ''home_formation'' = Some (SqlStr ''Unknown'') \<and>
                 map_of (zip teams_columns vals) ''away_formation'' = Some (SqlStr ''Unknown'')) \<and>
          (connect_ok be \<and> run_all (exec be) stmts db = Some w \<and> commit_ok be w
             \<longrightarrow> scrape_and_insert_match_data fo be c (Some d) db = (Inserted, w))"
    (is "?H \<longrightarrow> ?C")
  proof (rule impI, elim conjE)
    assume sb: "find_scorebox d = Some sb"
      and dm: "derive_match fo ?c d sb = (hp, ap, mm, ws)"
      and sh: "sca_val fo hp = Some h" and sa: "sca_val fo ap = Some a"
      and v: "vals = teams_param ?c mm (team_sums_of fo hp ap) h a"
      and st: "stmts = Upsert ''all_matchups_teams'' teams_columns vals
            # insert_players ?c hp (home_team c) (away_team c) ''home''
            @ insert_players ?c ap (away_team c) (home_team c) ''away''
            @ insert_events ?c d"
    have bs: "build_statements fo ?c d (derive_match fo ?c d sb) = Some stmts"
      unfolding dm st v using sh sa by (simp add: build_statements_def Let_def)
    have run: "scrape_and_insert_match_data fo be c (Some d) db = persist be stmts db"
      using sb bs by (simp add: scrape_and_insert_match_data_def Let_def)
    note meta = derive_match_meta[OF dm]
    have l1: "map_of (zip teams_columns vals) ''score'' = Some (SqlStr (final_score_of sb))"
      unfolding v using meta by (simp add: team_row_meta)
    have l2: "map_of (zip teams_columns vals) ''home_possession'' = Some (SqlStr (fst (possession_of d)))"
      unfolding v using meta by (simp add: team_row_meta)
    have l3: "map_of (zip teams_columns vals) ''away_possession'' = Some (SqlStr (snd (possession_of d)))"
      unfolding v using meta by (simp add: team_row_meta)
    have l4: "map_of (zip teams_columns vals) ''home_formation'' = Some (SqlStr (fst (formations_of d)))"
      unfolding v using meta by (simp add: team_row_meta)
    have l5: "map_of (zip teams_columns vals) ''away_formation'' = Some (SqlStr (snd (formations_of d)))"
      unfolding v using meta by (simp add: team_row_meta)
    have d1: "score_divs sb = [] \<longrightarrow> map_of (zip teams_columns vals) ''score'' = Some (SqlStr ''0 : 0'')"
      unfolding l1 by (simp add: final_score_of_def Let_def)
    have d2: "possession_tds d = None
             \<longrightarrow> map_of (zip teams_columns vals) ''home_possession'' = Some (SqlStr ''0%'') \<and>
                 map_of (zip teams_columns vals) ''away_possession'' = Some (SqlStr ''0%'')"
      unfolding l2 l3 by (simp add: possession_of_def)
    have d3: "home_lineup_div d = None \<or> away_lineup_div d = None
             \<longrightarrow> map_of (zip teams_columns vals) ''home_formation'' = Some (SqlStr ''Unknown'') \<and>
                 map_of (zip teams_columns vals) ''away_formation'' = Some (SqlStr ''Unknown'')"
      unfolding l4 l5 by (auto simp: formations_of_def split: option.splits)
    have ok: "connect_ok be \<and> run_all (exec be) stmts db = Some w \<and> commit_ok be w
             \<longrightarrow> scrape_and_insert_match_data fo be c (Some d) db = (Inserted, w)"
      unfolding run by (simp add: persist_cases)
    show ?C
      by (intro conjI) (rule run l1 l2 l3 l4 l5 d1 d2 d3 ok)+
  qed
  have b2: "find_scorebox d = Some sb
      \<longrightarrow> scrape_and_insert_match_data fo be c (Some d) db =
          (case build_statements fo ?c d (derive_match fo ?c d sb) of
             None \<Rightarrow> (RoundError, db)
           | Some stmts \<Rightarrow> persist be stmts db) \<and>
          fst (scrape_and_insert_match_data fo be c (Some d) db) \<noteq> NoScorebox"
    using b b' by blast
  have e: "stats_tables d = [] \<and> derive_match fo ?c d sb = (hp, ap, mm, ws)
      \<longrightarrow> hp = [] \<and> ap = [] \<and> sca_val fo hp = Some 0 \<and> sca_val fo ap = Some 0"
  proof (rule impI, elim conjE)
    assume h: "stats_tables d = []" "derive_match fo ?c d sb = (hp, ap, mm, ws)"
    have "hp = [] \<and> ap = []" by (rule derive_match_no_tables [OF h])
    then show "hp = [] \<and> ap = [] \<and> sca_val fo hp = Some 0 \<and> sca_val fo ap = Some 0"
      by (simp add: sca_val_empty)
  qed
  show ?thesis
    by (intro conjI) (rule a b2 m n e)+
qed

theorem no_scorebox_aborts_witness:
  "find_scorebox example_no_scorebox = None \<and>
   scrape_and_insert_match_data whole_float_ops (mysql_backend example_schema) example_ctx
     (Some example_no_scorebox) empty_db = (NoScorebox, empty_db) \<and>
   find_scorebox example_home_lineup_only = Some \<lparr>squad_links = [], score_divs = []\<rparr> \<and>
   fst (scrape_and_insert_match_data whole_float_ops (mysql_backend example_schema) example_ctx
     (Some example_home_lineup_only) empty_db) \<noteq> NoScorebox \<and>
   find_scorebox example_scorebox_only = Some \<lparr>squad_links = [], score_divs = []\<rparr> \<and>
   possession_tds example_scorebox_only = None \<and>
   home_lineup_div example_scorebox_only = None \<and>
   away_lineup_div example_scorebox_only = None \<and>
   (\<exists>row.
      scrape_and_insert_match_data whole_float_ops (mysql_backend example_schema) example_ctx
        (Some example_scorebox_only) empty_db
        = (Inserted, empty_db(''all_matchups_teams'' := [row])) \<and>
      map_of row ''score'' = Some (SqlStr ''0 : 0'') \<and>
      map_of row ''home_possession'' = Some (SqlStr ''0%'') \<and>
      map_of row ''away_possession'' = Some (SqlStr ''0%'') \<and>
      map_of row ''home_formation'' = Some (SqlStr ''Unknown'') \<and>
      map_of row ''away_formation'' = Some (SqlStr ''Unknown''))"
proof -
  let ?sb = "\<lparr>squad_links = [], score_divs = []\<rparr>"
  let ?c = "example_ctx\<lparr>match_url := normalize_url (match_url example_ctx)\<rparr>"
  let ?be = "mysql_backend example_schema :: (int db, int) backend"
  have h1: "find_scorebox example_no_scorebox = None"
    by (simp add: example_no_scorebox_def)
  have h2: "find_scorebox example_home_lineup_only = Some ?sb"
    by (simp add: example_home_lineup_only_def)
  have h3: "find_scorebox example_scorebox_only = Some ?sb"
    "possession_tds example_scorebox_only = None"
    "home_lineup_div example_scorebox_only = None"
    "away_lineup_div example_scorebox_only = None"
    "stats_tables example_scorebox_only = []"
    "shots_table example_scorebox_only = None"
    by (simp_all add: example_scorebox_only_def)
  obtain hp ap mm ws where dm:
    "derive_match whole_float_ops ?c example_scorebox_only ?sb = (hp, ap, mm, ws)"
    by (cases "derive_match whole_float_ops ?c example_scorebox_only ?sb") auto
  define vals where "vals = teams_param ?c mm (team_sums_of whole_float_ops hp ap) 0 0"
  define stmts where "stmts = Upsert ''all_matchups_teams'' teams_columns vals
            # insert_players ?c hp (home_team example_ctx) (away_team example_ctx) ''home''
            @ insert_players ?c ap (away_team example_ctx) (home_team example_ctx) ''away''
            @ insert_events ?c example_scorebox_only"
  define w where "w = empty_db(''all_matchups_teams'' := [zip teams_columns vals])"
  note t = no_scorebox_aborts [where d = example_scorebox_only and fo = whole_float_ops
      and be = ?be and c = example_ctx and db = empty_db and sb = ?sb and hp = hp and ap = ap
      and mm = mm and ws = ws and h = 0 and a = 0 and vals = vals and stmts = stmts and w = w]
  note t4 = t [THEN conjunct2, THEN conjunct2, THEN conjunct2, THEN conjunct1]
  note t5 = t [THEN conjunct2, THEN conjunct2, THEN conjunct2, THEN conjunct2]
  note emp0 = mp [OF t5 conjI [OF h3(5) dm]]
  note emp = emp0 [THEN conjunct1] emp0 [THEN conjunct2, THEN conjunct1]
      emp0 [THEN conjunct2, THEN conjunct2, THEN conjunct1]
      emp0 [THEN conjunct2, THEN conjunct2, THEN conjunct2]
  have ev: "(insert_events ?c example_scorebox_only :: int statement list) = []"
    by (simp add: insert_events_def data_batch_of_def h3(6))
  have s1: "stmts = [Upsert ''all_matchups_teams'' teams_columns vals]"
    unfolding stmts_def emp ev by (simp add: insert_players_def)
  have len: "length teams_columns = length vals"
    unfolding vals_def by (simp add: teams_param_length)
  have run: "run_all (exec ?be) stmts empty_db = Some w"
    unfolding s1 w_def using len
    by (simp add: mysql_backend_def mysql_exec_def upsert_row_def empty_db_def split: option.splits)
  have ok: "connect_ok ?be" "commit_ok ?be w" by (simp_all add: mysql_backend_def)
  have sd: "score_divs ?sb = []" by simp
  note c = mp [OF t4 conjI [OF h3(1) conjI [OF dm conjI [OF emp(3) conjI [OF emp(4)
      conjI [OF vals_def stmts_def]]]]]]
  note c6 = c [THEN conjunct2, THEN conjunct2, THEN conjunct2, THEN conjunct2, THEN conjunct2,
      THEN conjunct2]
  note r1 = mp [OF c6 [THEN conjunct2, THEN conjunct2, THEN conjunct2]
      conjI [OF ok(1) conjI [OF run ok(2)]]]
  note r2 = mp [OF c6 [THEN conjunct1] sd]
  note r3 = mp [OF c6 [THEN conjunct2, THEN conjunct1] h3(2)]
  note r4 = mp [OF c6 [THEN conjunct2, THEN conjunct2, THEN conjunct1] disjI1 [OF h3(3)]]
  have ex: "\<exists>row.
      scrape_and_insert_match_data whole_float_ops ?be example_ctx
        (Some example_scorebox_only) empty_db
        = (Inserted, empty_db(''all_matchups_teams'' := [row])) \<and>
      map_of row ''score'' = Some (SqlStr ''0 : 0'') \<and>
      map_of row ''home_possession'' = Some (SqlStr ''0%'') \<and>
      map_of row ''away_possession'' = Some (SqlStr ''0%'') \<and>
      map_of row ''home_formation'' = Some (SqlStr ''Unknown'') \<and>
      map_of row ''away_formation'' = Some (SqlStr ''Unknown'')"
    using r1 r2 r3 r4 unfolding w_def by (intro exI [of _ "zip teams_columns vals"]) simp
  note old =
    mp [OF no_scorebox_aborts [of example_no_scorebox whole_float_ops ?be example_ctx empty_db,
        THEN conjunct1] h1]
    mp [OF no_scorebox_aborts [of example_home_lineup_only whole_float_ops ?be example_ctx
        empty_db ?sb, THEN conjunct2, THEN conjunct1] h2, THEN conjunct2]
  show ?thesis
    by (intro conjI) (rule h1 h2 h3(1-4) old ex)+
qed

end
